theory Spec2Isabelle
  imports Main
begin

section \<open>Raw records\<close>

text \<open>
  A raw record is one JSON object of an Open Data response, a Python \<open>dict\<close> from field
  names to values. The feeds serialise every column as a JSON string; a JSON \<open>null\<close> is
  Python's \<open>None\<close>. The signatures of the tracker (\<open>violation_id: str\<close>,
  \<open>violation_date: str\<close>) fix the same value type.
\<close>

datatype pyval = PNone | PStr string

type_synonym raw_record = "string \<rightharpoonup> pyval"

text \<open>\<open>d.get(k)\<close>: the value under \<open>k\<close>, \<open>None\<close> when the key is absent.\<close>

definition get :: "raw_record \<Rightarrow> string \<Rightarrow> pyval" where
  "get d k = (case d k of None \<Rightarrow> PNone | Some v \<Rightarrow> v)"

text \<open>Python truthiness: \<open>None\<close> and the empty string are false.\<close>

fun truthy :: "pyval \<Rightarrow> bool" where
  "truthy PNone = False"
| "truthy (PStr s) = (s \<noteq> [])"

text \<open>The string a truthy value carries (used only behind a \<open>truthy\<close> test).\<close>

fun str_of :: "pyval \<Rightarrow> string" where
  "str_of PNone = []"
| "str_of (PStr s) = s"

section \<open>The record store (class ViolationTracker)\<close>

text \<open>
  One row of table \<open>violations\<close>, with the columns of the \<open>CREATE TABLE\<close> statement
  (\<open>rowid\<close> is column \<open>id\<close>). Every column is \<open>NOT NULL\<close>, so a stored row holds strings.
\<close>

record row =
  rowid :: nat
  source :: string
  violation_id :: string
  block :: string
  lot :: string
  violation_date :: string
  created_date :: string

text \<open>
  The table: its rows in insertion order, and the \<open>AUTOINCREMENT\<close> counter SQLite keeps
  for it (table \<open>sqlite_sequence\<close>).
\<close>

record table =
  rows :: "row list"
  seq :: nat

definition key :: "row \<Rightarrow> string \<times> string" where
  "key r = (source r, violation_id r)"

definition keys :: "table \<Rightarrow> (string \<times> string) list" where
  "keys t = map key (rows t)"

text \<open>
  \<open>_init_database\<close>: \<open>CREATE TABLE IF NOT EXISTS\<close>. The database file is \<open>None\<close> while the
  table does not exist.
\<close>

definition init_database :: "table option \<Rightarrow> table option" where
  "init_database d = (case d of None \<Rightarrow> Some \<lparr>rows = [], seq = 0\<rparr> | Some t \<Rightarrow> Some t)"

text \<open>
  \<open>is_new_violation\<close>: \<open>SELECT 1 FROM violations WHERE source = ? AND violation_id = ?\<close>,
  and \<open>fetchone() is None\<close>.
\<close>

definition select_rows :: "table \<Rightarrow> string \<Rightarrow> string \<Rightarrow> row list" where
  "select_rows t src vid = filter (\<lambda>r. source r = src \<and> violation_id r = vid) (rows t)"

definition is_new_violation :: "table \<Rightarrow> string \<Rightarrow> string \<Rightarrow> bool" where
  "is_new_violation t src vid = (select_rows t src vid = [])"

text \<open>
  \<open>track_violation\<close>: \<open>INSERT OR IGNORE\<close>. The statement draws the next row id from the
  \<open>AUTOINCREMENT\<close> counter, which advances whether or not a row is written. \<open>OR IGNORE\<close>
  skips the row, with no error, when it violates \<open>UNIQUE(source, violation_id)\<close> or a
  \<open>NOT NULL\<close> constraint; the only argument the caller can pass as \<open>None\<close> is
  \<open>violation_date\<close>. \<open>now\<close> is \<open>datetime.now().isoformat()\<close>.
\<close>

definition next_rowid :: "table \<Rightarrow> nat" where
  "next_rowid t = Suc (max (seq t) (fold max (map rowid (rows t)) 0))"

definition track_violation ::
  "table \<Rightarrow> string \<Rightarrow> string \<Rightarrow> string \<Rightarrow> string \<Rightarrow> pyval \<Rightarrow> string \<Rightarrow> table" where
  "track_violation t src vid blk lt vdate now =
     (case vdate of
        PNone \<Rightarrow> t\<lparr>seq := next_rowid t\<rparr>
      | PStr d \<Rightarrow>
          if (src, vid) \<in> set (keys t) then t\<lparr>seq := next_rowid t\<rparr>
          else \<lparr>rows = rows t @
                  [\<lparr>rowid = next_rowid t, source = src, violation_id = vid, block = blk,
                    lot = lt, violation_date = d, created_date = now\<rparr>],
                seq = next_rowid t\<rparr>)"

section \<open>The tracking loop of check_violations\<close>

text \<open>
  \<open>check_violations\<close> runs the same loop once per source, with the source tag, the
  identifier field and the date field written out as literals. \<open>novelty_loop\<close> is that loop
  with the three literals as parameters. Its state is the table, the number of clock reads
  so far (each \<open>track_violation\<close> reads the clock once) and the list appended to.
\<close>

record tracking =
  tbl :: table
  ticks :: nat
  novel :: "raw_record list"

definition loop_body ::
  "(nat \<Rightarrow> string) \<Rightarrow> string \<Rightarrow> string \<Rightarrow> string \<Rightarrow> string \<Rightarrow> string \<Rightarrow>
   tracking \<Rightarrow> raw_record \<Rightarrow> tracking" where
  "loop_body isoformat src id_field date_field blk lt st r =
     (let vid = get r id_field in
      if truthy vid \<and> is_new_violation (tbl st) src (str_of vid)
      then \<lparr>tbl = track_violation (tbl st) src (str_of vid) blk lt (get r date_field)
                    (isoformat (ticks st)),
            ticks = Suc (ticks st),
            novel = novel st @ [r]\<rparr>
      else st)"

definition novelty_loop ::
  "(nat \<Rightarrow> string) \<Rightarrow> string \<Rightarrow> string \<Rightarrow> string \<Rightarrow> string \<Rightarrow> string \<Rightarrow>
   raw_record list \<Rightarrow> tracking \<Rightarrow> tracking" where
  "novelty_loop isoformat src id_field date_field blk lt rs st =
     foldl (loop_body isoformat src id_field date_field blk lt) st rs"

section \<open>Source adapters (class NYCDataFetcher)\<close>

text \<open>
  The query parameters of one request: the dictionary with keys \<open>$where\<close>, \<open>$order\<close>,
  \<open>$limit\<close> and, when a token is configured, \<open>$$app_token\<close>.
\<close>

record params =
  where_clause :: string
  order :: string
  limit :: nat
  app_token :: "string option"

record request =
  url :: string
  query :: params

text \<open>
  What \<open>requests.get\<close>, \<open>raise_for_status\<close> and \<open>response.json()\<close> produce together: the
  decoded list, or a \<open>requests.RequestException\<close>.
\<close>

datatype fetch_result = RequestException | Json "raw_record list"

datatype log_event =
    Checking string string
  | ErrorFetching string
  | Found nat
  | NoNewViolations
  | ReportSent nat
  | FailedToSendEmail

text \<open>The MIME message: its three headers and the HTML body attached to it.\<close>

record message =
  msg_from :: string
  msg_to :: string
  msg_subject :: string
  msg_body :: string

text \<open>
  The calls made on the SMTP connection; \<open>sendmail\<close> is given the text that
  \<open>msg.as_string()\<close> produced.
\<close>

datatype smtp_action =
    Connect string nat
  | StartTLS
  | Login string string
  | SendMail string string string
  | Quit

text \<open>The exceptions that building the message can raise.\<close>

datatype error = ImportError string | UnicodeEncodeError

text \<open>
  Everything a cycle reads and writes outside its own variables: the table, the number of
  clock reads, the requests sent, the SMTP calls made, the log lines written, and the
  exception with which \<open>check_violations\<close> ended (\<open>None\<close> when it returned).
\<close>

record world =
  database :: table
  clock :: nat
  requests :: "request list"
  smtp_session :: "smtp_action list"
  logged :: "log_event list"
  uncaught :: "error option"

definition log_line :: "log_event \<Rightarrow> world \<Rightarrow> world" where
  "log_line ev w = w\<lparr>logged := logged w @ [ev]\<rparr>"

definition base_url :: string where
  "base_url = ''https://data.cityofnewyork.us/resource''"

definition apostrophe :: string where
  "apostrophe = [CHR 0x27]"

text \<open>
  \<open>_make_request\<close>. \<open>if self.api_token\<close> is false for \<open>None\<close> and for the empty string;
  otherwise the token is added to the parameters. The request goes out once; a
  \<open>RequestException\<close> is logged and answered with the empty list.
\<close>

definition with_token :: "string option \<Rightarrow> params \<Rightarrow> params" where
  "with_token api_token ps =
     (if api_token \<noteq> None \<and> api_token \<noteq> Some [] then ps\<lparr>app_token := api_token\<rparr> else ps)"

definition request_for :: "string option \<Rightarrow> string \<Rightarrow> params \<Rightarrow> request" where
  "request_for api_token endpoint ps =
     \<lparr>url = base_url @ ''/'' @ endpoint @ ''.json'', query = with_token api_token ps\<rparr>"

definition make_request ::
  "(request \<Rightarrow> fetch_result) \<Rightarrow> string option \<Rightarrow> string \<Rightarrow> params \<Rightarrow> world \<Rightarrow>
   raw_record list \<times> world" where
  "make_request net api_token endpoint ps w =
     (let req = request_for api_token endpoint ps;
          w' = w\<lparr>requests := requests w @ [req]\<rparr>
      in case net req of
           Json rs \<Rightarrow> (rs, w')
         | RequestException \<Rightarrow> ([], log_line (ErrorFetching endpoint) w'))"

definition params_311 :: "string \<Rightarrow> string \<Rightarrow> string \<Rightarrow> params" where
  "params_311 blk lt since_date =
     \<lparr>where_clause = ''incident_address LIKE '' @ apostrophe @ ''%'' @ blk @ '' %'' @ lt @ ''%''
          @ apostrophe @ '' AND created_date > '' @ apostrophe @ since_date @ apostrophe,
      order = ''created_date DESC'',
      limit = 1000,
      app_token = None\<rparr>"

definition block_lot_filter :: "string \<Rightarrow> string \<Rightarrow> string" where
  "block_lot_filter blk lt =
     ''block = '' @ apostrophe @ blk @ apostrophe @ '' AND lot = '' @ apostrophe @ lt @ apostrophe"

definition params_hpd :: "string \<Rightarrow> string \<Rightarrow> string \<Rightarrow> params" where
  "params_hpd blk lt since_date =
     \<lparr>where_clause = block_lot_filter blk lt
          @ '' AND inspectiondate > '' @ apostrophe @ since_date @ apostrophe,
      order = ''inspectiondate DESC'',
      limit = 1000,
      app_token = None\<rparr>"

definition params_oath :: "string \<Rightarrow> string \<Rightarrow> string \<Rightarrow> params" where
  "params_oath blk lt since_date =
     \<lparr>where_clause = block_lot_filter blk lt
          @ '' AND hearing_date > '' @ apostrophe @ since_date @ apostrophe,
      order = ''hearing_date DESC'',
      limit = 1000,
      app_token = None\<rparr>"

definition params_dob :: "string \<Rightarrow> string \<Rightarrow> string \<Rightarrow> params" where
  "params_dob blk lt since_date =
     \<lparr>where_clause = block_lot_filter blk lt
          @ '' AND issue_date > '' @ apostrophe @ since_date @ apostrophe,
      order = ''issue_date DESC'',
      limit = 1000,
      app_token = None\<rparr>"

definition get_311_complaints ::
  "(request \<Rightarrow> fetch_result) \<Rightarrow> string option \<Rightarrow> string \<Rightarrow> string \<Rightarrow> string \<Rightarrow> world \<Rightarrow>
   raw_record list \<times> world" where
  "get_311_complaints net api_token blk lt since_date =
     make_request net api_token ''erm2-nwe9'' (params_311 blk lt since_date)"

definition get_hpd_violations ::
  "(request \<Rightarrow> fetch_result) \<Rightarrow> string option \<Rightarrow> string \<Rightarrow> string \<Rightarrow> string \<Rightarrow> world \<Rightarrow>
   raw_record list \<times> world" where
  "get_hpd_violations net api_token blk lt since_date =
     make_request net api_token ''wvxf-dwi5'' (params_hpd blk lt since_date)"

definition get_oath_violations ::
  "(request \<Rightarrow> fetch_result) \<Rightarrow> string option \<Rightarrow> string \<Rightarrow> string \<Rightarrow> string \<Rightarrow> world \<Rightarrow>
   raw_record list \<times> world" where
  "get_oath_violations net api_token blk lt since_date =
     make_request net api_token ''6bgk-3dad'' (params_oath blk lt since_date)"

definition get_dob_violations ::
  "(request \<Rightarrow> fetch_result) \<Rightarrow> string option \<Rightarrow> string \<Rightarrow> string \<Rightarrow> string \<Rightarrow> world \<Rightarrow>
   raw_record list \<times> world" where
  "get_dob_violations net api_token blk lt since_date =
     make_request net api_token ''3h2n-5cm9'' (params_dob blk lt since_date)"

section \<open>Notification (class EmailNotifier)\<close>

text \<open>
  The settings read from \<open>config.json\<close> by \<open>ViolationMonitor.__init__\<close> and
  \<open>EmailNotifier.__init__\<close>.
\<close>

record monitor =
  api_token :: "string option"
  cfg_block :: string
  cfg_lot :: string
  smtp_server :: string
  smtp_port :: nat
  from_email :: string
  from_password :: string
  to_emails :: "string list"

text \<open>
  What surrounds the program: the data service, the mail server (whether a call succeeds
  may depend on the calls made before it in the session), the clock as rendered by
  \<open>isoformat()\<close> and by \<open>(now - 1 day).strftime('%Y-%m-%d')\<close>, and the HTML text of
  \<open>_create_email_body\<close>, a string computed from its three arguments and the date, whose
  wording no property below depends on.

  The last three fields are the library calls on the message. \<open>mime_multipart\<close> is what
  \<open>MimeMultipart()\<close> does and \<open>mime_text body\<close> what \<open>MimeText(body, 'html')\<close> does:
  \<open>None\<close> when an object is returned, the exception otherwise. The module imports the two
  classes under these names, which the standard library spells \<open>MIMEMultipart\<close> and
  \<open>MIMEText\<close>: with the standard library as it is, the import at the head of the module
  raises \<open>ImportError\<close>. The model places that failure at the first use of the names, so
  that the code which does not use them can be examined, and leaves the outcome to the
  environment. The real \<open>MIMEText\<close> raises \<open>UnicodeEncodeError\<close> on text that cannot be
  encoded, such as a lone surrogate. \<open>as_string msg\<close> is what \<open>msg.as_string()\<close> returns,
  \<open>None\<close> when it raises.
\<close>

record env =
  net :: "request \<Rightarrow> fetch_result"
  smtp :: "smtp_action list \<Rightarrow> smtp_action \<Rightarrow> bool"
  isoformat :: "nat \<Rightarrow> string"
  yesterday_of :: "nat \<Rightarrow> string"
  create_email_body :: "nat \<Rightarrow> (string \<times> raw_record list) list \<Rightarrow> string \<Rightarrow> string \<Rightarrow> string"
  mime_multipart :: "error option"
  mime_text :: "string \<Rightarrow> error option"
  as_string :: "message \<Rightarrow> string option"

text \<open>\<open>', '.join(xs)\<close>.\<close>

fun join_comma :: "string list \<Rightarrow> string" where
  "join_comma [] = []"
| "join_comma [x] = x"
| "join_comma (x # y # ys) = x @ '', '' @ join_comma (y # ys)"

text \<open>
  The body of the \<open>try\<close> block, as the steps it takes in order. A step is a call on the
  connection, or \<open>None\<close> where evaluating the argument of the call already raised. Each
  call made is recorded; the first step that raises ends the block (\<open>False\<close>), and the
  block completes (\<open>True\<close>) when none does.
\<close>

fun try_block ::
  "(smtp_action list \<Rightarrow> smtp_action \<Rightarrow> bool) \<Rightarrow> smtp_action list \<Rightarrow> smtp_action option list \<Rightarrow>
   smtp_action list \<times> bool" where
  "try_block server made [] = (made, True)"
| "try_block server made (None # steps) = (made, False)"
| "try_block server made (Some a # steps) =
     (if server made a then try_block server (made @ [a]) steps else (made @ [a], False))"

text \<open>\<open>any(violations.values())\<close>: some list is not empty.\<close>

definition any_values :: "(string \<times> raw_record list) list \<Rightarrow> bool" where
  "any_values violations = list_ex (\<lambda>v. v \<noteq> []) (map snd violations)"

text \<open>
  The message once both constructors have returned: the three headers of lines 164 to
  166 and the body attached at line 170.
\<close>

definition report_message ::
  "monitor \<Rightarrow> string \<Rightarrow> string \<Rightarrow> string \<Rightarrow> message" where
  "report_message m blk lt body =
     \<lparr>msg_from = from_email m,
      msg_to = join_comma (to_emails m),
      msg_subject = ''NYC Property Violations - Block '' @ blk @ '', Lot '' @ lt,
      msg_body = body\<rparr>"

text \<open>
  Lines 174 to 181: connect, \<open>starttls\<close>, \<open>login\<close>, one \<open>sendmail\<close> for each recipient
  with \<open>msg.as_string()\<close> evaluated for it, \<open>quit\<close>.
\<close>

definition delivery_steps :: "env \<Rightarrow> monitor \<Rightarrow> message \<Rightarrow> smtp_action option list" where
  "delivery_steps e m msg =
     [Some (Connect (smtp_server m) (smtp_port m)), Some StartTLS,
      Some (Login (from_email m) (from_password m))]
     @ map (\<lambda>to_email. map_option (SendMail (from_email m) to_email) (as_string e msg))
         (to_emails m)
     @ [Some Quit]"

text \<open>
  \<open>send_violation_report\<close>. The early return comes first. Lines 163 to 170 build the
  message outside the \<open>try\<close>: an exception raised there leaves the method, and with it
  \<open>check_violations\<close>, which has no handler. \<open>except Exception\<close> catches whatever a step
  of the \<open>try\<close> block raises and logs it.
\<close>

definition send_violation_report ::
  "env \<Rightarrow> monitor \<Rightarrow> (string \<times> raw_record list) list \<Rightarrow> string \<Rightarrow> string \<Rightarrow> world \<Rightarrow> world" where
  "send_violation_report e m violations blk lt w =
     (if \<not> any_values violations then log_line NoNewViolations w
      else
        case mime_multipart e of
          Some err \<Rightarrow> w\<lparr>uncaught := Some err\<rparr>
        | None \<Rightarrow>
            let body = create_email_body e (clock w) violations blk lt;
                w1 = w\<lparr>clock := Suc (clock w)\<rparr>
            in case mime_text e body of
                 Some err \<Rightarrow> w1\<lparr>uncaught := Some err\<rparr>
               | None \<Rightarrow>
                   let msg = report_message m blk lt body;
                       (made, ok) = try_block (smtp e) [] (delivery_steps e m msg);
                       w2 = w1\<lparr>smtp_session := smtp_session w1 @ made\<rparr>
                   in if ok then log_line (ReportSent (length (to_emails m))) w2
                      else log_line FailedToSendEmail w2)"

section \<open>One cycle (ViolationMonitor.check_violations)\<close>

text \<open>One of the four loops, run on the table and clock of the world.\<close>

definition track_source ::
  "env \<Rightarrow> monitor \<Rightarrow> string \<Rightarrow> string \<Rightarrow> string \<Rightarrow> raw_record list \<Rightarrow> world \<Rightarrow>
   raw_record list \<times> world" where
  "track_source e m src id_field date_field rs w =
     (let st = novelty_loop (isoformat e) src id_field date_field (cfg_block m) (cfg_lot m) rs
                 \<lparr>tbl = database w, ticks = clock w, novel = []\<rparr>
      in (novel st, w\<lparr>database := tbl st, clock := ticks st\<rparr>))"

text \<open>
  One source of the cycle: the adapter is called with the configured block and lot and
  the cutoff, and its records go through the loop.
\<close>

definition poll ::
  "((request \<Rightarrow> fetch_result) \<Rightarrow> string option \<Rightarrow> string \<Rightarrow> string \<Rightarrow> string \<Rightarrow> world \<Rightarrow>
     raw_record list \<times> world) \<Rightarrow>
   string \<Rightarrow> string \<Rightarrow> string \<Rightarrow> env \<Rightarrow> monitor \<Rightarrow> string \<Rightarrow> world \<Rightarrow> raw_record list \<times> world" where
  "poll fetch src id_field date_field e m since_date w =
     (let (rs, w') = fetch (net e) (api_token m) (cfg_block m) (cfg_lot m) since_date w
      in track_source e m src id_field date_field rs w')"

text \<open>
  Lines 266 to 320: the log line, the cutoff, and the four sources in the order of the
  code, each with its tag, identifier field and date field.
\<close>

definition gather :: "env \<Rightarrow> monitor \<Rightarrow> world \<Rightarrow> (string \<times> raw_record list) list \<times> world" where
  "gather e m w0 =
     (let w1 = log_line (Checking (cfg_block m) (cfg_lot m)) w0;
          yesterday = yesterday_of e (clock w1);
          w2 = w1\<lparr>clock := Suc (clock w1)\<rparr>;
          (new_311, w3) =
             poll get_311_complaints ''311_complaints'' ''unique_key'' ''created_date''
               e m yesterday w2;
          (new_hpd, w4) =
             poll get_hpd_violations ''hpd_violations'' ''violationid'' ''inspectiondate''
               e m yesterday w3;
          (new_oath, w5) =
             poll get_oath_violations ''oath_violations'' ''summons_number'' ''hearing_date''
               e m yesterday w4;
          (new_dob, w6) =
             poll get_dob_violations ''dob_violations'' ''isn_dob_bis_viol'' ''issue_date''
               e m yesterday w5
      in ([(''311_complaints'', new_311), (''hpd_violations'', new_hpd),
           (''oath_violations'', new_oath), (''dob_violations'', new_dob)], w6))"

text \<open>
  The whole method: the four loops, the count logged, the report. It returns nothing; the
  model returns the dictionary handed to the notifier together with the world, whose
  field \<open>uncaught\<close> tells whether the method returned or raised.
\<close>

definition check_violations ::
  "env \<Rightarrow> monitor \<Rightarrow> world \<Rightarrow> (string \<times> raw_record list) list \<times> world" where
  "check_violations e m w0 =
     (let (new_violations, w) = gather e m w0;
          total_new = sum_list (map (\<lambda>kv. length (snd kv)) new_violations);
          w' = log_line (Found total_new) w
      in (new_violations,
          send_violation_report e m new_violations (cfg_block m) (cfg_lot m) w'))"

text \<open>
  The body rendered in a cycle and the outcome of its \<open>try\<close> block, when the report gets
  that far.
\<close>

definition cycle_body :: "env \<Rightarrow> monitor \<Rightarrow> world \<Rightarrow> string" where
  "cycle_body e m w =
     create_email_body e (clock (snd (gather e m w))) (fst (gather e m w)) (cfg_block m) (cfg_lot m)"

definition cycle_delivery :: "env \<Rightarrow> monitor \<Rightarrow> world \<Rightarrow> smtp_action list \<times> bool" where
  "cycle_delivery e m w =
     try_block (smtp e) []
       (delivery_steps e m (report_message m (cfg_block m) (cfg_lot m) (cycle_body e m w)))"

section \<open>Store operations in sequence\<close>

text \<open>
  The three operations of the tracker, as calls made one after another on the database
  file. \<open>Exists\<close> and \<open>Insert\<close> on a file without the table raise
  \<open>sqlite3.OperationalError\<close> and write nothing.
\<close>

datatype store_op =
    Init
  | Exists string string
  | Insert string string string string pyval string

fun store_step :: "table option \<Rightarrow> store_op \<Rightarrow> table option" where
  "store_step d Init = init_database d"
| "store_step None (Exists src vid) = None"
| "store_step (Some t) (Exists src vid) = Some t"
| "store_step None (Insert src vid blk lt vdate now) = None"
| "store_step (Some t) (Insert src vid blk lt vdate now) =
     Some (track_violation t src vid blk lt vdate now)"

definition run_ops :: "store_op list \<Rightarrow> table option" where
  "run_ops ops = foldl store_step None ops"

section \<open>The novel records, as the specification words them\<close>

text \<open>
  The identifier of a record under a field, and the input restricted to the records that
  carry an identifier whose pair is not in the given table.
\<close>

definition unseen :: "table \<Rightarrow> string \<Rightarrow> string \<Rightarrow> raw_record \<Rightarrow> bool" where
  "unseen t src id_field r =
     (truthy (get r id_field) \<and> (src, str_of (get r id_field)) \<notin> set (keys t))"

definition filter_unseen :: "table \<Rightarrow> string \<Rightarrow> string \<Rightarrow> raw_record list \<Rightarrow> raw_record list" where
  "filter_unseen t src id_field rs = filter (unseen t src id_field) rs"

text \<open>
  The same restriction, keeping of several records with one identifier only the first:
  position \<open>k\<close> is kept when its record is unseen and no earlier position has its
  identifier.
\<close>

definition first_at :: "string \<Rightarrow> raw_record list \<Rightarrow> nat \<Rightarrow> bool" where
  "first_at id_field rs k =
     (get (rs ! k) id_field \<notin> set (map (\<lambda>r. get r id_field) (take k rs)))"

definition first_unseen :: "table \<Rightarrow> string \<Rightarrow> string \<Rightarrow> raw_record list \<Rightarrow> raw_record list" where
  "first_unseen t src id_field rs =
     map (\<lambda>k. rs ! k)
       (filter (\<lambda>k. unseen t src id_field (rs ! k) \<and> first_at id_field rs k) [0..<length rs])"

text \<open>Every record that has an identifier also has its date.\<close>

definition dated :: "string \<Rightarrow> string \<Rightarrow> raw_record list \<Rightarrow> bool" where
  "dated id_field date_field rs =
     list_all (\<lambda>r. \<not> truthy (get r id_field) \<or> get r date_field \<noteq> PNone) rs"

text \<open>
  The date condition and the ordering of a request, for a date field and a cutoff, and
  the world without its log.
\<close>

definition after_cutoff :: "string \<Rightarrow> string \<Rightarrow> string" where
  "after_cutoff date_field cutoff_date =
     date_field @ '' > '' @ [CHR 0x27] @ cutoff_date @ [CHR 0x27]"

definition newest_first :: "string \<Rightarrow> string" where
  "newest_first date_field = date_field @ '' DESC''"

definition unlogged :: "world \<Rightarrow> world" where
  "unlogged w = w\<lparr>logged := []\<rparr>"

text \<open>
  What an adapter hands to the loop for a request, and the four adapters of the cycle.
\<close>

definition fetched :: "(request \<Rightarrow> fetch_result) \<Rightarrow> request \<Rightarrow> raw_record list" where
  "fetched srv req = (case srv req of Json rs \<Rightarrow> rs | RequestException \<Rightarrow> [])"

definition is_adapter ::
  "((request \<Rightarrow> fetch_result) \<Rightarrow> string option \<Rightarrow> string \<Rightarrow> string \<Rightarrow> string \<Rightarrow> world \<Rightarrow>
     raw_record list \<times> world) \<Rightarrow> bool" where
  "is_adapter fetch = (fetch \<in> {get_311_complaints, get_hpd_violations, get_oath_violations, get_dob_violations})"

text \<open>
  What the loop of one source reports and what it writes, said without the loop. Position
  \<open>k\<close> of the input is reported when its record is unseen in the table the loop starts
  from and no earlier record that has its date carries the same identifier; the pairs
  written are those of the records that have both an identifier and a date.
\<close>

definition reported_at :: "table \<Rightarrow> string \<Rightarrow> string \<Rightarrow> string \<Rightarrow> raw_record list \<Rightarrow> nat \<Rightarrow> bool" where
  "reported_at t src id_field date_field rs k =
     (unseen t src id_field (rs ! k) \<and>
      get (rs ! k) id_field
        \<notin> set (map (\<lambda>r. get r id_field) (filter (\<lambda>r. get r date_field \<noteq> PNone) (take k rs))))"

definition reported :: "table \<Rightarrow> string \<Rightarrow> string \<Rightarrow> string \<Rightarrow> raw_record list \<Rightarrow> raw_record list" where
  "reported t src id_field date_field rs =
     map (\<lambda>k. rs ! k) (filter (reported_at t src id_field date_field rs) [0..<length rs])"

definition tracked_keys :: "string \<Rightarrow> string \<Rightarrow> string \<Rightarrow> raw_record list \<Rightarrow> (string \<times> string) list" where
  "tracked_keys src id_field date_field rs =
     map (\<lambda>r. (src, str_of (get r id_field)))
       (filter (\<lambda>r. truthy (get r id_field) \<and> get r date_field \<noteq> PNone) rs)"

text \<open>The records a source hands over in the cycle that starts in world \<open>w\<close>.\<close>

definition answer ::
  "env \<Rightarrow> monitor \<Rightarrow> world \<Rightarrow> string \<Rightarrow> (string \<Rightarrow> string \<Rightarrow> string \<Rightarrow> params) \<Rightarrow> raw_record list" where
  "answer e m w endpoint ps =
     fetched (net e)
       (request_for (api_token m) endpoint
          (ps (cfg_block m) (cfg_lot m) (yesterday_of e (clock w))))"

section \<open>Sample inputs\<close>

definition empty_table :: table where
  "empty_table = \<lparr>rows = [], seq = 0\<rparr>"

definition fresh :: tracking where
  "fresh = \<lparr>tbl = empty_table, ticks = 0, novel = []\<rparr>"

definition sample_clock :: "nat \<Rightarrow> string" where
  "sample_clock n = ''2024-03-02T09:00:0'' @ [char_of (48 + n mod 10)]"

definition complaint_A1 :: raw_record where
  "complaint_A1 = [''unique_key'' \<mapsto> PStr ''A1'', ''created_date'' \<mapsto> PStr ''2024-03-01T10:00:00'']"

definition complaint_A2 :: raw_record where
  "complaint_A2 = [''unique_key'' \<mapsto> PStr ''A2'', ''created_date'' \<mapsto> PStr ''2024-03-01T11:30:00'']"

definition complaint_no_key :: raw_record where
  "complaint_no_key = [''created_date'' \<mapsto> PStr ''2024-03-01T12:00:00'']"

definition complaint_undated :: raw_record where
  "complaint_undated = [''unique_key'' \<mapsto> PStr ''A3'']"

definition sample_monitor :: monitor where
  "sample_monitor =
     \<lparr>api_token = None, cfg_block = ''1'', cfg_lot = ''2'', smtp_server = ''smtp.example.org'',
      smtp_port = 587, from_email = ''monitor@example.org'', from_password = ''secret'',
      to_emails = [''owner@example.org'']\<rparr>"

definition sample_world :: world where
  "sample_world =
     \<lparr>database = empty_table, clock = 0, requests = [], smtp_session = [], logged = [],
      uncaught = None\<rparr>"

definition hpd_B1 :: raw_record where
  "hpd_B1 = [''violationid'' \<mapsto> PStr ''B1'', ''inspectiondate'' \<mapsto> PStr ''2024-03-01T00:00:00'']"

definition oath_C1 :: raw_record where
  "oath_C1 = [''summons_number'' \<mapsto> PStr ''C1'', ''hearing_date'' \<mapsto> PStr ''2024-03-01T00:00:00'']"

definition dob_D1 :: raw_record where
  "dob_D1 = [''isn_dob_bis_viol'' \<mapsto> PStr ''D1'', ''issue_date'' \<mapsto> PStr ''2024-03-01T00:00:00'']"

definition city_net :: "request \<Rightarrow> fetch_result" where
  "city_net req = Json [complaint_A1, hpd_B1, oath_C1, dob_D1]"

definition failing_net :: "request \<Rightarrow> fetch_result" where
  "failing_net req = RequestException"

definition sample_net :: "request \<Rightarrow> fetch_result" where
  "sample_net req = Json [complaint_A1]"

definition oversized_net :: "request \<Rightarrow> fetch_result" where
  "oversized_net req = Json (replicate 1001 complaint_A1)"

definition refusing_smtp :: "smtp_action list \<Rightarrow> smtp_action \<Rightarrow> bool" where
  "refusing_smtp made a = False"

definition sample_yesterday :: "nat \<Rightarrow> string" where
  "sample_yesterday n = ''2024-03-01''"

definition sample_body :: "nat \<Rightarrow> (string \<times> raw_record list) list \<Rightarrow> string \<Rightarrow> string \<Rightarrow> string" where
  "sample_body n violations blk lt = ''<html><body></body></html>''"

definition accepts_text :: "string \<Rightarrow> error option" where
  "accepts_text body = None"

definition rejects_text :: "string \<Rightarrow> error option" where
  "rejects_text body = Some UnicodeEncodeError"

definition sample_as_string :: "message \<Rightarrow> string option" where
  "sample_as_string msg = Some (msg_subject msg @ msg_body msg)"

definition sample_env :: "(request \<Rightarrow> fetch_result) \<Rightarrow> env" where
  "sample_env srv =
     \<lparr>net = srv, smtp = refusing_smtp, isoformat = sample_clock,
      yesterday_of = sample_yesterday, create_email_body = sample_body,
      mime_multipart = None, mime_text = accepts_text, as_string = sample_as_string\<rparr>"

definition accepting_smtp :: "smtp_action list \<Rightarrow> smtp_action \<Rightarrow> bool" where
  "accepting_smtp made a = True"

definition failing_as_string :: "message \<Rightarrow> string option" where
  "failing_as_string msg = None"

definition unserialisable_env :: env where
  "unserialisable_env =
     (sample_env sample_net)\<lparr>smtp := accepting_smtp, as_string := failing_as_string\<rparr>"

definition surrogate_env :: env where
  "surrogate_env = (sample_env sample_net)\<lparr>mime_text := rejects_text\<rparr>"

definition sample_request :: request where
  "sample_request = request_for None ''erm2-nwe9'' (params_311 ''1'' ''2'' ''2024-03-01'')"

section \<open>The store: lookups and inserts\<close>

lemma is_new_iff: "is_new_violation t src vid \<longleftrightarrow> (src, vid) \<notin> set (keys t)"
  by (auto simp: is_new_violation_def select_rows_def keys_def key_def filter_empty_conv)

lemma rows_track_dup:
  "(src, vid) \<in> set (keys t) \<Longrightarrow> rows (track_violation t src vid blk lt vdate now) = rows t"
  by (simp add: track_violation_def split: pyval.splits)

lemma rows_track_none: "rows (track_violation t src vid blk lt PNone now) = rows t"
  by (simp add: track_violation_def)

lemma keys_track_new:
  "(src, vid) \<notin> set (keys t) \<Longrightarrow>
   keys (track_violation t src vid blk lt (PStr d) now) = keys t @ [(src, vid)]"
  by (simp add: track_violation_def keys_def key_def)

lemma keys_track_dup:
  "(src, vid) \<in> set (keys t) \<Longrightarrow> keys (track_violation t src vid blk lt vdate now) = keys t"
  by (simp add: keys_def rows_track_dup)

lemma set_keys_track:
  "set (keys (track_violation t src vid blk lt (PStr d) now)) = insert (src, vid) (set (keys t))"
  by (cases "(src, vid) \<in> set (keys t)") (auto simp: keys_track_new keys_track_dup)

lemma keys_track_none: "keys (track_violation t src vid blk lt PNone now) = keys t"
  by (simp add: keys_def rows_track_none)

lemma keys_track_mono:
  "set (keys t) \<subseteq> set (keys (track_violation t src vid blk lt vdate now))"
  by (cases vdate) (auto simp: set_keys_track keys_track_none)

lemma distinct_track:
  "distinct (keys t) \<Longrightarrow> distinct (keys (track_violation t src vid blk lt vdate now))"
proof (cases "(src, vid) \<in> set (keys t)")
  case True
  assume "distinct (keys t)"
  with True show ?thesis by (simp add: keys_track_dup)
next
  case False
  assume "distinct (keys t)"
  with False show ?thesis
    by (cases vdate) (simp_all add: keys_track_new keys_track_none)
qed

lemma length_filter_key:
  "length (filter (\<lambda>r. source r = src \<and> violation_id r = vid) rs)
   = count_list (map key rs) (src, vid)"
  by (induction rs) (auto simp: key_def)

lemma select_rows_length:
  "length (select_rows t src vid) = count_list (keys t) (src, vid)"
  by (simp add: select_rows_def keys_def length_filter_key)

lemma count_distinct_mem:
  "distinct xs \<Longrightarrow> x \<in> set xs \<Longrightarrow> count_list xs x = 1"
  by (induction xs) (auto simp: count_list_0_iff)

lemma select_rows_track_new:
  "(src, vid) \<notin> set (keys t) \<Longrightarrow>
   select_rows (track_violation t src vid blk lt (PStr d) now) src vid =
     [\<lparr>rowid = next_rowid t, source = src, violation_id = vid, block = blk, lot = lt,
       violation_date = d, created_date = now\<rparr>]"
  by (auto simp: track_violation_def select_rows_def keys_def key_def filter_empty_conv)

lemma store_step_distinct:
  "(\<And>t. d = Some t \<Longrightarrow> distinct (keys t)) \<Longrightarrow> store_step d op = Some t' \<Longrightarrow> distinct (keys t')"
  by (cases op; cases d) (auto simp: init_database_def keys_def distinct_track[unfolded keys_def])

lemma foldl_store_distinct:
  "(\<And>t. d = Some t \<Longrightarrow> distinct (keys t)) \<Longrightarrow> foldl store_step d ops = Some t' \<Longrightarrow>
   distinct (keys t')"
proof (induction ops arbitrary: d)
  case Nil
  then show ?case by simp
next
  case (Cons op ops)
  show ?case
  proof (rule Cons.IH)
    show "foldl store_step (store_step d op) ops = Some t'"
      using Cons.prems(2) by simp
  next
    fix t assume "store_step d op = Some t"
    with Cons.prems(1) show "distinct (keys t)"
      by (rule store_step_distinct)
  qed
qed

section \<open>The tracking loop\<close>

lemma novelty_loop_Nil [simp]: "novelty_loop clk src idf df blk lt [] st = st"
  by (simp add: novelty_loop_def)

lemma novelty_loop_Cons:
  "novelty_loop clk src idf df blk lt (r # rs) st
   = novelty_loop clk src idf df blk lt rs (loop_body clk src idf df blk lt st r)"
  by (simp add: novelty_loop_def)

lemma novelty_loop_append:
  "novelty_loop clk src idf df blk lt (xs @ ys) st
   = novelty_loop clk src idf df blk lt ys (novelty_loop clk src idf df blk lt xs st)"
  by (simp add: novelty_loop_def)

lemma novelty_loop_snoc:
  "novelty_loop clk src idf df blk lt (xs @ [r]) st
   = loop_body clk src idf df blk lt (novelty_loop clk src idf df blk lt xs st) r"
  by (simp add: novelty_loop_def)

lemma loop_body_skip:
  "\<not> truthy (get r idf) \<Longrightarrow> loop_body clk src idf df blk lt st r = st"
  by (simp add: loop_body_def)

lemma loop_body_novel:
  "set (novel (loop_body clk src idf df blk lt st r))
   \<subseteq> set (novel st) \<union> {x. x = r \<and> truthy (get r idf)}"
  by (auto simp: loop_body_def Let_def)

lemma novelty_loop_novel:
  "set (novel (novelty_loop clk src idf df blk lt rs st))
   \<subseteq> set (novel st) \<union> {x \<in> set rs. truthy (get x idf)}"
proof (induction rs arbitrary: st)
  case Nil
  show ?case by simp
next
  case (Cons r rs)
  have "set (novel (novelty_loop clk src idf df blk lt (r # rs) st))
        \<subseteq> set (novel (loop_body clk src idf df blk lt st r)) \<union> {x \<in> set rs. truthy (get x idf)}"
    unfolding novelty_loop_Cons by (rule Cons.IH)
  with loop_body_novel [of clk src idf df blk lt st r] show ?case
    by auto
qed

lemma not_truthy_iff:
  "\<not> truthy (get r idf) \<longleftrightarrow> r idf = None \<or> r idf = Some PNone \<or> r idf = Some (PStr [])"
  by (cases "r idf"; cases "the (r idf)") (auto simp: get_def)

lemma first_unseen_snoc:
  "first_unseen t src idf (rs @ [r])
   = first_unseen t src idf rs
     @ (if unseen t src idf r \<and> get r idf \<notin> set (map (\<lambda>x. get x idf) rs) then [r] else [])"
proof -
  have old: "filter (\<lambda>k. unseen t src idf ((rs @ [r]) ! k) \<and> first_at idf (rs @ [r]) k)
               [0..<length rs]
             = filter (\<lambda>k. unseen t src idf (rs ! k) \<and> first_at idf rs k) [0..<length rs]"
    by (rule filter_cong) (auto simp: first_at_def nth_append)
  have map_old: "map (\<lambda>k. (rs @ [r]) ! k) (filter (\<lambda>k. unseen t src idf (rs ! k) \<and> first_at idf rs k) [0..<length rs])
             = map (\<lambda>k. rs ! k) (filter (\<lambda>k. unseen t src idf (rs ! k) \<and> first_at idf rs k) [0..<length rs])"
    by (rule map_cong) (auto simp: nth_append)
  have last: "first_at idf (rs @ [r]) (length rs)
              \<longleftrightarrow> get r idf \<notin> set (map (\<lambda>x. get x idf) rs)"
    by (simp add: first_at_def)
  show ?thesis
    unfolding first_unseen_def
    by (simp add: old map_old last)
qed

lemma first_unseen_Nil [simp]: "first_unseen t src idf [] = []"
  by (simp add: first_unseen_def)

lemma truthy_inj: "truthy v \<Longrightarrow> truthy w \<Longrightarrow> str_of v = str_of w \<Longrightarrow> v = w"
  by (cases v; cases w) auto

lemma dated_append: "dated idf df (xs @ ys) \<longleftrightarrow> dated idf df xs \<and> dated idf df ys"
  by (simp add: dated_def)

lemma loop_invariant:
  assumes "dated idf df rs"
  shows "set (keys (tbl (novelty_loop clk src idf df blk lt rs st)))
           = set (keys (tbl st)) \<union> {(src, str_of (get r idf)) | r. r \<in> set rs \<and> truthy (get r idf)}
         \<and> novel (novelty_loop clk src idf df blk lt rs st)
           = novel st @ first_unseen (tbl st) src idf rs"
  using assms
proof (induction rs rule: rev_induct)
  case Nil
  show ?case by simp
next
  case (snoc r rs)
  let ?st1 = "novelty_loop clk src idf df blk lt rs st"
  from snoc.prems have d_rs: "dated idf df rs" and d_r: "\<not> truthy (get r idf) \<or> get r df \<noteq> PNone"
    by (simp_all add: dated_append dated_def)
  from snoc.IH [OF d_rs]
  have ks: "set (keys (tbl ?st1))
           = set (keys (tbl st)) \<union> {(src, str_of (get x idf)) | x. x \<in> set rs \<and> truthy (get x idf)}"
    and nv: "novel ?st1 = novel st @ first_unseen (tbl st) src idf rs"
    by simp_all
  show ?case
  proof (cases "truthy (get r idf)")
    case False
    then have "{(src, str_of (get x idf)) | x. x \<in> set (rs @ [r]) \<and> truthy (get x idf)}
        = {(src, str_of (get x idf)) | x. x \<in> set rs \<and> truthy (get x idf)}"
      by auto
    with False show ?thesis
      by (simp add: novelty_loop_snoc loop_body_skip ks nv first_unseen_snoc unseen_def
               del: set_append)
  next
    case True
    then obtain d where d: "get r df = PStr d"
      using d_r by (cases "get r df") auto
    have seen_iff: "get r idf \<in> set (map (\<lambda>x. get x idf) rs)
        \<longleftrightarrow> (src, str_of (get r idf)) \<in> {(src, str_of (get x idf)) | x. x \<in> set rs \<and> truthy (get x idf)}"
    proof
      assume "get r idf \<in> set (map (\<lambda>x. get x idf) rs)"
      then obtain x where x: "x \<in> set rs" "get x idf = get r idf" by auto
      with True have "truthy (get x idf)" "str_of (get r idf) = str_of (get x idf)"
        by simp_all
      with x(1) show "(src, str_of (get r idf))
          \<in> {(src, str_of (get x idf)) | x. x \<in> set rs \<and> truthy (get x idf)}"
        by blast
    next
      assume "(src, str_of (get r idf))
          \<in> {(src, str_of (get x idf)) | x. x \<in> set rs \<and> truthy (get x idf)}"
      then obtain x where x: "x \<in> set rs" "truthy (get x idf)"
          "str_of (get r idf) = str_of (get x idf)" by auto
      from True x(2,3) have "get r idf = get x idf" by (rule truthy_inj)
      with x(1) show "get r idf \<in> set (map (\<lambda>x. get x idf) rs)" by force
    qed
    have new_iff: "is_new_violation (tbl ?st1) src (str_of (get r idf))
        \<longleftrightarrow> unseen (tbl st) src idf r \<and> get r idf \<notin> set (map (\<lambda>x. get x idf) rs)"
      unfolding is_new_iff ks seen_iff unseen_def using True by auto
    show ?thesis
    proof (cases "is_new_violation (tbl ?st1) src (str_of (get r idf))")
      case new: True
      have body: "loop_body clk src idf df blk lt ?st1 r
          = \<lparr>tbl = track_violation (tbl ?st1) src (str_of (get r idf)) blk lt (PStr d)
                    (clk (ticks ?st1)),
             ticks = Suc (ticks ?st1), novel = novel ?st1 @ [r]\<rparr>"
        using True new by (simp add: loop_body_def d)
      have "set (keys (tbl (loop_body clk src idf df blk lt ?st1 r)))
            = insert (src, str_of (get r idf)) (set (keys (tbl ?st1)))"
        by (simp add: body set_keys_track)
      moreover have "novel (loop_body clk src idf df blk lt ?st1 r)
            = novel st @ first_unseen (tbl st) src idf (rs @ [r])"
        using new new_iff by (simp add: body nv first_unseen_snoc)
      ultimately show ?thesis
        unfolding novelty_loop_snoc using True by (auto simp: ks)
    next
      case old: False
      have body: "loop_body clk src idf df blk lt ?st1 r = ?st1"
        using old by (simp add: loop_body_def)
      have "(src, str_of (get r idf)) \<in> set (keys (tbl ?st1))"
        using old by (simp add: is_new_iff)
      then have "set (keys (tbl ?st1))
           = set (keys (tbl st)) \<union> {(src, str_of (get x idf)) | x. x \<in> set (rs @ [r]) \<and> truthy (get x idf)}"
        unfolding ks by auto
      moreover have "novel ?st1 = novel st @ first_unseen (tbl st) src idf (rs @ [r])"
        using old new_iff by (simp add: nv first_unseen_snoc)
      ultimately show ?thesis
        unfolding novelty_loop_snoc body by simp
    qed
  qed
qed

lemma loop_all_seen:
  "(\<And>r. r \<in> set rs \<Longrightarrow> truthy (get r idf) \<Longrightarrow> (src, str_of (get r idf)) \<in> set (keys (tbl st)))
   \<Longrightarrow> novelty_loop clk src idf df blk lt rs st = st"
proof (induction rs)
  case Nil
  show ?case by simp
next
  case (Cons r rs)
  have "loop_body clk src idf df blk lt st r = st"
    using Cons.prems [of r] by (cases "truthy (get r idf)") (simp_all add: loop_body_def is_new_iff)
  then show ?case
    using Cons by (simp add: novelty_loop_Cons)
qed

lemma truthy_samples:
  "get complaint_A1 ''unique_key'' = PStr ''A1''"
  "get complaint_A1 ''created_date'' = PStr ''2024-03-01T10:00:00''"
  "get complaint_A2 ''unique_key'' = PStr ''A2''"
  "get complaint_A2 ''created_date'' = PStr ''2024-03-01T11:30:00''"
  "get complaint_no_key ''unique_key'' = PNone"
  "get complaint_undated ''unique_key'' = PStr ''A3''"
  "get complaint_undated ''created_date'' = PNone"
  by (simp_all add: get_def complaint_A1_def complaint_A2_def complaint_no_key_def complaint_undated_def)

section \<open>The cycle\<close>

lemma make_request_fst:
  "fst (make_request srv tok ep ps w) = fetched srv (request_for tok ep ps)"
  by (simp add: make_request_def fetched_def Let_def split: fetch_result.splits)

lemma make_request_snd:
  "database (snd (make_request srv tok ep ps w)) = database w"
  "clock (snd (make_request srv tok ep ps w)) = clock w"
  "smtp_session (snd (make_request srv tok ep ps w)) = smtp_session w"
  "requests (snd (make_request srv tok ep ps w)) = requests w @ [request_for tok ep ps]"
  by (simp_all add: make_request_def Let_def log_line_def split: fetch_result.splits)

lemma track_source_snd:
  "requests (snd (track_source e m src idf df rs w)) = requests w"
  "smtp_session (snd (track_source e m src idf df rs w)) = smtp_session w"
  "logged (snd (track_source e m src idf df rs w)) = logged w"
  by (simp_all add: track_source_def Let_def)

lemma loop_body_keys_mono:
  "set (keys (tbl st)) \<subseteq> set (keys (tbl (loop_body clk src idf df blk lt st r)))"
  using keys_track_mono by (simp add: loop_body_def Let_def)

lemma novelty_loop_keys_mono:
  "set (keys (tbl st)) \<subseteq> set (keys (tbl (novelty_loop clk src idf df blk lt rs st)))"
proof (induction rs arbitrary: st)
  case Nil
  show ?case by simp
next
  case (Cons r rs)
  from loop_body_keys_mono Cons.IH show ?case
    unfolding novelty_loop_Cons by (rule subset_trans)
qed

lemma track_source_keys_mono:
  "set (keys (database w)) \<subseteq> set (keys (database (snd (track_source e m src idf df rs w))))"
  using novelty_loop_keys_mono [of "\<lparr>tbl = database w, ticks = clock w, novel = []\<rparr>"]
  by (simp add: track_source_def Let_def)

lemmas get_defs = get_311_complaints_def get_hpd_violations_def get_oath_violations_def
  get_dob_violations_def

lemma poll_eq:
  assumes "\<And>srv tok b l y w. fetch srv tok b l y w = make_request srv tok ep (P b l y) w"
  shows "poll fetch src idf df e m y w
         = track_source e m src idf df
             (fetched (net e) (request_for (api_token m) ep (P (cfg_block m) (cfg_lot m) y)))
             (snd (make_request (net e) (api_token m) ep (P (cfg_block m) (cfg_lot m) y) w))"
  by (simp add: poll_def assms split_def make_request_fst)

lemma poll_get:
  "poll get_311_complaints src idf df e m y w
     = track_source e m src idf df
         (fetched (net e) (request_for (api_token m) ''erm2-nwe9'' (params_311 (cfg_block m) (cfg_lot m) y)))
         (snd (make_request (net e) (api_token m) ''erm2-nwe9'' (params_311 (cfg_block m) (cfg_lot m) y) w))"
  "poll get_hpd_violations src idf df e m y w
     = track_source e m src idf df
         (fetched (net e) (request_for (api_token m) ''wvxf-dwi5'' (params_hpd (cfg_block m) (cfg_lot m) y)))
         (snd (make_request (net e) (api_token m) ''wvxf-dwi5'' (params_hpd (cfg_block m) (cfg_lot m) y) w))"
  "poll get_oath_violations src idf df e m y w
     = track_source e m src idf df
         (fetched (net e) (request_for (api_token m) ''6bgk-3dad'' (params_oath (cfg_block m) (cfg_lot m) y)))
         (snd (make_request (net e) (api_token m) ''6bgk-3dad'' (params_oath (cfg_block m) (cfg_lot m) y) w))"
  "poll get_dob_violations src idf df e m y w
     = track_source e m src idf df
         (fetched (net e) (request_for (api_token m) ''3h2n-5cm9'' (params_dob (cfg_block m) (cfg_lot m) y)))
         (snd (make_request (net e) (api_token m) ''3h2n-5cm9'' (params_dob (cfg_block m) (cfg_lot m) y) w))"
  by (rule poll_eq, simp add: get_defs)+

lemma poll_keys_mono:
  assumes "is_adapter fetch"
  shows "set (keys (database w)) \<subseteq> set (keys (database (snd (poll fetch src idf df e m y w))))"
proof
  fix x assume x: "x \<in> set (keys (database w))"
  have h: "x \<in> set (keys (database (snd (track_source e m src idf df
            (fetched (net e) (request_for (api_token m) ep ps))
            (snd (make_request (net e) (api_token m) ep ps w))))))" for ep ps
  proof -
    have "set (keys (database (snd (make_request (net e) (api_token m) ep ps w))))
        \<subseteq> set (keys (database (snd (track_source e m src idf df
            (fetched (net e) (request_for (api_token m) ep ps))
            (snd (make_request (net e) (api_token m) ep ps w))))))"
      by (rule track_source_keys_mono)
    with x show ?thesis
      by (auto simp: make_request_snd)
  qed
  from assms show "x \<in> set (keys (database (snd (poll fetch src idf df e m y w))))"
    by (auto simp: is_adapter_def poll_get h)
qed

lemma adapters [simp]:
  "is_adapter get_311_complaints" "is_adapter get_hpd_violations"
  "is_adapter get_oath_violations" "is_adapter get_dob_violations"
  by (simp_all add: is_adapter_def)

lemma gather_eq:
  "gather e m w =
     (let w2 = (log_line (Checking (cfg_block m) (cfg_lot m)) w)
                 \<lparr>clock := Suc (clock (log_line (Checking (cfg_block m) (cfg_lot m)) w))\<rparr>;
          y = yesterday_of e (clock w);
          p1 = poll get_311_complaints ''311_complaints'' ''unique_key'' ''created_date'' e m y w2;
          p2 = poll get_hpd_violations ''hpd_violations'' ''violationid'' ''inspectiondate'' e m y (snd p1);
          p3 = poll get_oath_violations ''oath_violations'' ''summons_number'' ''hearing_date'' e m y (snd p2);
          p4 = poll get_dob_violations ''dob_violations'' ''isn_dob_bis_viol'' ''issue_date'' e m y (snd p3)
      in ([(''311_complaints'', fst p1), (''hpd_violations'', fst p2),
           (''oath_violations'', fst p3), (''dob_violations'', fst p4)], snd p4))"
  by (simp add: gather_def Let_def split_def log_line_def)

lemma poll_snd:
  assumes "is_adapter fetch"
  shows "smtp_session (snd (poll fetch src idf df e m y w)) = smtp_session w"
  using assms by (auto simp: is_adapter_def poll_get track_source_snd make_request_snd)

lemma gather_smtp_session: "smtp_session (snd (gather e m w)) = smtp_session w"
  by (simp add: gather_eq Let_def poll_snd log_line_def)

lemma poll_uncaught:
  assumes "is_adapter fetch"
  shows "uncaught (snd (poll fetch src idf df e m y w)) = uncaught w"
  using assms
  by (auto simp: is_adapter_def poll_get track_source_def make_request_def Let_def log_line_def
      split: fetch_result.splits)

lemma gather_uncaught: "uncaught (snd (gather e m w)) = uncaught w"
  by (simp add: gather_eq Let_def poll_uncaught log_line_def)

lemma gather_keys_mono: "set (keys (database w)) \<subseteq> set (keys (database (snd (gather e m w))))"
proof -
  let ?w2 = "(log_line (Checking (cfg_block m) (cfg_lot m)) w)
                 \<lparr>clock := Suc (clock (log_line (Checking (cfg_block m) (cfg_lot m)) w))\<rparr>"
  let ?y = "yesterday_of e (clock w)"
  let ?p1 = "poll get_311_complaints ''311_complaints'' ''unique_key'' ''created_date'' e m ?y ?w2"
  let ?p2 = "poll get_hpd_violations ''hpd_violations'' ''violationid'' ''inspectiondate'' e m ?y (snd ?p1)"
  let ?p3 = "poll get_oath_violations ''oath_violations'' ''summons_number'' ''hearing_date'' e m ?y (snd ?p2)"
  let ?p4 = "poll get_dob_violations ''dob_violations'' ''isn_dob_bis_viol'' ''issue_date'' e m ?y (snd ?p3)"
  have k0: "set (keys (database w)) \<subseteq> set (keys (database ?w2))"
    by (simp add: log_line_def)
  have k1: "set (keys (database w)) \<subseteq> set (keys (database (snd ?p1)))"
    using k0 poll_keys_mono [OF adapters(1)] by (rule subset_trans)
  have k2: "set (keys (database w)) \<subseteq> set (keys (database (snd ?p2)))"
    using k1 poll_keys_mono [OF adapters(2)] by (rule subset_trans)
  have k3: "set (keys (database w)) \<subseteq> set (keys (database (snd ?p3)))"
    using k2 poll_keys_mono [OF adapters(3)] by (rule subset_trans)
  have "set (keys (database w)) \<subseteq> set (keys (database (snd ?p4)))"
    using k3 poll_keys_mono [OF adapters(4)] by (rule subset_trans)
  then show ?thesis
    by (simp add: gather_eq Let_def)
qed

lemma gather_ignores_mail:
  "gather (e\<lparr>smtp := s, create_email_body := b\<rparr>) m w = gather e m w"
  by (simp add: gather_def poll_def track_source_def)

lemma send_database:
  "database (send_violation_report e m v blk lt w) = database w"
  "requests (send_violation_report e m v blk lt w) = requests w"
  by (simp_all add: send_violation_report_def log_line_def Let_def split_def
      split: option.splits)

lemma send_nothing:
  "\<not> any_values v \<Longrightarrow> send_violation_report e m v blk lt w = log_line NoNewViolations w"
  by (simp add: send_violation_report_def)

lemma all_empty_not_any:
  "list_all (\<lambda>kv. snd kv = []) v \<Longrightarrow> \<not> any_values v"
  by (induction v) (auto simp: any_values_def)

lemma all_empty_total:
  "list_all (\<lambda>kv. snd kv = []) v \<Longrightarrow> sum_list (map (\<lambda>kv. length (snd kv)) v) = 0"
  by (induction v) auto

lemma check_violations_eq:
  "check_violations e m w =
     (fst (gather e m w),
      send_violation_report e m (fst (gather e m w)) (cfg_block m) (cfg_lot m)
        (log_line (Found (sum_list (map (\<lambda>kv. length (snd kv)) (fst (gather e m w)))))
           (snd (gather e m w))))"
  by (simp add: check_violations_def Let_def split_def)

lemma unlogged_fields:
  assumes "unlogged w = unlogged w'"
  shows "database w = database w'" "clock w = clock w'" "requests w = requests w'"
    "smtp_session w = smtp_session w'" "uncaught w = uncaught w'"
proof -
  have "database (unlogged w) = database (unlogged w')" "clock (unlogged w) = clock (unlogged w')"
    "requests (unlogged w) = requests (unlogged w')"
    "smtp_session (unlogged w) = smtp_session (unlogged w')"
    "uncaught (unlogged w) = uncaught (unlogged w')"
    using assms by simp_all
  then show "database w = database w'" "clock w = clock w'" "requests w = requests w'"
    "smtp_session w = smtp_session w'" "uncaught w = uncaught w'"
    by (simp_all add: unlogged_def)
qed

lemma unlogged_log_line [simp]: "unlogged (log_line ev w) = unlogged w"
  by (simp add: unlogged_def log_line_def)

lemma fetched_patch:
  "srv req = RequestException \<Longrightarrow> fetched (srv(req := Json [])) = fetched srv"
  by (rule ext) (simp add: fetched_def)

lemma make_request_unlogged:
  assumes "unlogged w' = unlogged w"
  shows "unlogged (snd (make_request srv' tok ep ps w')) = unlogged (snd (make_request srv tok ep ps w))"
  using unlogged_fields [OF assms]
  by (simp add: make_request_def Let_def unlogged_def log_line_def split: fetch_result.splits)

lemma track_source_unlogged:
  assumes "unlogged w' = unlogged w" "isoformat e' = isoformat e"
  shows "fst (track_source e' m src idf df rs w') = fst (track_source e m src idf df rs w)"
    and "unlogged (snd (track_source e' m src idf df rs w'))
         = unlogged (snd (track_source e m src idf df rs w))"
  using unlogged_fields [OF assms(1)] assms(2)
  by (simp_all add: track_source_def Let_def unlogged_def)

lemma poll_unlogged:
  assumes "is_adapter fetch" "unlogged w' = unlogged w" "isoformat e' = isoformat e"
    "fetched (net e') = fetched (net e)"
  shows "fst (poll fetch src idf df e' m y w') = fst (poll fetch src idf df e m y w)"
    and "unlogged (snd (poll fetch src idf df e' m y w'))
         = unlogged (snd (poll fetch src idf df e m y w))"
proof -
  have a: "fst (track_source e' m src idf df (fetched (net e') r)
                 (snd (make_request (net e') (api_token m) ep ps w')))
         = fst (track_source e m src idf df (fetched (net e) r)
                 (snd (make_request (net e) (api_token m) ep ps w)))" for ep ps r
    unfolding assms(4)
    by (rule track_source_unlogged(1) [OF make_request_unlogged [OF assms(2)] assms(3)])
  have b: "unlogged (snd (track_source e' m src idf df (fetched (net e') r)
                 (snd (make_request (net e') (api_token m) ep ps w'))))
         = unlogged (snd (track_source e m src idf df (fetched (net e) r)
                 (snd (make_request (net e) (api_token m) ep ps w))))" for ep ps r
    unfolding assms(4)
    by (rule track_source_unlogged(2) [OF make_request_unlogged [OF assms(2)] assms(3)])
  from assms(1) show "fst (poll fetch src idf df e' m y w') = fst (poll fetch src idf df e m y w)"
    by (auto simp: is_adapter_def poll_get a)
  from assms(1) show "unlogged (snd (poll fetch src idf df e' m y w'))
         = unlogged (snd (poll fetch src idf df e m y w))"
    by (auto simp: is_adapter_def poll_get b)
qed

lemma gather_unlogged:
  assumes "isoformat e' = isoformat e" "fetched (net e') = fetched (net e)"
    "yesterday_of e' = yesterday_of e"
  shows "fst (gather e' m w) = fst (gather e m w)"
    and "unlogged (snd (gather e' m w)) = unlogged (snd (gather e m w))"
proof -
  let ?w2 = "(log_line (Checking (cfg_block m) (cfg_lot m)) w)
                 \<lparr>clock := Suc (clock (log_line (Checking (cfg_block m) (cfg_lot m)) w))\<rparr>"
  let ?y = "yesterday_of e (clock w)"
  let ?p1 = "\<lambda>e. poll get_311_complaints ''311_complaints'' ''unique_key'' ''created_date'' e m ?y ?w2"
  let ?p2 = "\<lambda>e. poll get_hpd_violations ''hpd_violations'' ''violationid'' ''inspectiondate'' e m ?y (snd (?p1 e))"
  let ?p3 = "\<lambda>e. poll get_oath_violations ''oath_violations'' ''summons_number'' ''hearing_date'' e m ?y (snd (?p2 e))"
  let ?p4 = "\<lambda>e. poll get_dob_violations ''dob_violations'' ''isn_dob_bis_viol'' ''issue_date'' e m ?y (snd (?p3 e))"
  note pu = poll_unlogged [OF _ _ assms(1,2)]
  have u1: "unlogged (snd (?p1 e')) = unlogged (snd (?p1 e))"
    by (rule pu(2)) simp_all
  have u2: "unlogged (snd (?p2 e')) = unlogged (snd (?p2 e))"
    by (rule pu(2) [OF _ u1]) simp
  have u3: "unlogged (snd (?p3 e')) = unlogged (snd (?p3 e))"
    by (rule pu(2) [OF _ u2]) simp
  have u4: "unlogged (snd (?p4 e')) = unlogged (snd (?p4 e))"
    by (rule pu(2) [OF _ u3]) simp
  have f1: "fst (?p1 e') = fst (?p1 e)"
    by (rule pu(1)) simp_all
  have f2: "fst (?p2 e') = fst (?p2 e)"
    by (rule pu(1) [OF _ u1]) simp
  have f3: "fst (?p3 e') = fst (?p3 e)"
    by (rule pu(1) [OF _ u2]) simp
  have f4: "fst (?p4 e') = fst (?p4 e)"
    by (rule pu(1) [OF _ u3]) simp
  show "fst (gather e' m w) = fst (gather e m w)"
    using f1 f2 f3 f4 by (simp add: gather_eq Let_def assms(3))
  show "unlogged (snd (gather e' m w)) = unlogged (snd (gather e m w))"
    using u4 by (simp add: gather_eq Let_def assms(3))
qed

lemma send_unlogged:
  assumes "unlogged w' = unlogged w" "smtp e' = smtp e" "create_email_body e' = create_email_body e"
    "mime_multipart e' = mime_multipart e" "mime_text e' = mime_text e" "as_string e' = as_string e"
  shows "unlogged (send_violation_report e' m v blk lt w')
         = unlogged (send_violation_report e m v blk lt w)"
  using unlogged_fields [OF assms(1)] assms(2-6)
  by (simp add: send_violation_report_def Let_def split_def delivery_steps_def unlogged_def
      log_line_def split: option.splits)

lemma poll_requests:
  "requests (snd (poll get_311_complaints src idf df e m y w))
     = requests w @ [request_for (api_token m) ''erm2-nwe9'' (params_311 (cfg_block m) (cfg_lot m) y)]"
  "requests (snd (poll get_hpd_violations src idf df e m y w))
     = requests w @ [request_for (api_token m) ''wvxf-dwi5'' (params_hpd (cfg_block m) (cfg_lot m) y)]"
  "requests (snd (poll get_oath_violations src idf df e m y w))
     = requests w @ [request_for (api_token m) ''6bgk-3dad'' (params_oath (cfg_block m) (cfg_lot m) y)]"
  "requests (snd (poll get_dob_violations src idf df e m y w))
     = requests w @ [request_for (api_token m) ''3h2n-5cm9'' (params_dob (cfg_block m) (cfg_lot m) y)]"
  by (simp_all add: poll_get track_source_snd make_request_snd)

lemma gather_requests:
  "requests (snd (gather e m w))
   = requests w @
     [request_for (api_token m) ''erm2-nwe9''
        (params_311 (cfg_block m) (cfg_lot m) (yesterday_of e (clock w))),
      request_for (api_token m) ''wvxf-dwi5''
        (params_hpd (cfg_block m) (cfg_lot m) (yesterday_of e (clock w))),
      request_for (api_token m) ''6bgk-3dad''
        (params_oath (cfg_block m) (cfg_lot m) (yesterday_of e (clock w))),
      request_for (api_token m) ''3h2n-5cm9''
        (params_dob (cfg_block m) (cfg_lot m) (yesterday_of e (clock w)))]"
  by (simp add: gather_eq Let_def poll_requests log_line_def)

section \<open>What a cycle reports and writes\<close>

lemma reported_Nil [simp]: "reported t src idf df [] = []"
  by (simp add: reported_def)

lemma tracked_keys_Nil [simp]: "tracked_keys src idf df [] = []"
  by (simp add: tracked_keys_def)

lemma reported_snoc:
  "reported t src idf df (rs @ [r])
   = reported t src idf df rs
     @ (if unseen t src idf r
           \<and> get r idf \<notin> set (map (\<lambda>x. get x idf) (filter (\<lambda>x. get x df \<noteq> PNone) rs))
        then [r] else [])"
proof -
  have old: "filter (reported_at t src idf df (rs @ [r])) [0..<length rs]
             = filter (reported_at t src idf df rs) [0..<length rs]"
    by (rule filter_cong) (auto simp: reported_at_def nth_append)
  have map_old: "map (\<lambda>k. (rs @ [r]) ! k) (filter (reported_at t src idf df rs) [0..<length rs])
             = map (\<lambda>k. rs ! k) (filter (reported_at t src idf df rs) [0..<length rs])"
    by (rule map_cong) (auto simp: nth_append)
  have last: "reported_at t src idf df (rs @ [r]) (length rs)
              \<longleftrightarrow> unseen t src idf r
                  \<and> get r idf \<notin> set (map (\<lambda>x. get x idf) (filter (\<lambda>x. get x df \<noteq> PNone) rs))"
    by (simp add: reported_at_def)
  show ?thesis
    unfolding reported_def
    by (simp add: old map_old last)
qed

lemma tracked_keys_snoc:
  "tracked_keys src idf df (rs @ [r])
   = tracked_keys src idf df rs
     @ (if truthy (get r idf) \<and> get r df \<noteq> PNone then [(src, str_of (get r idf))] else [])"
  by (simp add: tracked_keys_def)

lemma tracked_keys_src: "(s, i) \<in> set (tracked_keys src idf df rs) \<Longrightarrow> s = src"
  by (auto simp: tracked_keys_def)

lemma seen_tracked:
  assumes "truthy (get r idf)"
  shows "get r idf \<in> set (map (\<lambda>x. get x idf) (filter (\<lambda>x. get x df \<noteq> PNone) rs))
         \<longleftrightarrow> (src, str_of (get r idf)) \<in> set (tracked_keys src idf df rs)"
proof
  assume "get r idf \<in> set (map (\<lambda>x. get x idf) (filter (\<lambda>x. get x df \<noteq> PNone) rs))"
  then obtain x where x: "x \<in> set rs" "get x df \<noteq> PNone" "get x idf = get r idf" by auto
  with assms have "truthy (get x idf)" "str_of (get r idf) = str_of (get x idf)"
    by simp_all
  with x(1,2) show "(src, str_of (get r idf)) \<in> set (tracked_keys src idf df rs)"
    by (force simp: tracked_keys_def)
next
  assume "(src, str_of (get r idf)) \<in> set (tracked_keys src idf df rs)"
  then obtain x where x: "x \<in> set rs" "truthy (get x idf)" "get x df \<noteq> PNone"
      "str_of (get r idf) = str_of (get x idf)"
    by (auto simp: tracked_keys_def)
  from assms x(2,4) have "get r idf = get x idf" by (rule truthy_inj)
  with x(1,3) show "get r idf \<in> set (map (\<lambda>x. get x idf) (filter (\<lambda>x. get x df \<noteq> PNone) rs))"
    by force
qed

lemma loop_general:
  "set (keys (tbl (novelty_loop clk src idf df blk lt rs st)))
     = set (keys (tbl st)) \<union> set (tracked_keys src idf df rs)
   \<and> novel (novelty_loop clk src idf df blk lt rs st)
     = novel st @ reported (tbl st) src idf df rs"
proof (induction rs rule: rev_induct)
  case Nil
  show ?case by simp
next
  case (snoc r rs)
  let ?st1 = "novelty_loop clk src idf df blk lt rs st"
  from snoc.IH
  have ks: "set (keys (tbl ?st1)) = set (keys (tbl st)) \<union> set (tracked_keys src idf df rs)"
    and nv: "novel ?st1 = novel st @ reported (tbl st) src idf df rs"
    by simp_all
  show ?case
  proof (cases "truthy (get r idf)")
    case False
    then show ?thesis
      by (simp add: novelty_loop_snoc loop_body_skip ks nv reported_snoc tracked_keys_snoc
          unseen_def)
  next
    case True
    have new_iff: "is_new_violation (tbl ?st1) src (str_of (get r idf))
        \<longleftrightarrow> unseen (tbl st) src idf r
            \<and> get r idf \<notin> set (map (\<lambda>x. get x idf) (filter (\<lambda>x. get x df \<noteq> PNone) rs))"
      unfolding is_new_iff ks seen_tracked [OF True, of df rs src] unseen_def using True by auto
    show ?thesis
    proof (cases "is_new_violation (tbl ?st1) src (str_of (get r idf))")
      case new: True
      have body: "loop_body clk src idf df blk lt ?st1 r
          = \<lparr>tbl = track_violation (tbl ?st1) src (str_of (get r idf)) blk lt (get r df)
                    (clk (ticks ?st1)),
             ticks = Suc (ticks ?st1), novel = novel ?st1 @ [r]\<rparr>"
        using True new by (simp add: loop_body_def)
      have nov: "novel (loop_body clk src idf df blk lt ?st1 r)
            = novel st @ reported (tbl st) src idf df (rs @ [r])"
        using new new_iff by (simp add: body nv reported_snoc)
      have "set (keys (tbl (loop_body clk src idf df blk lt ?st1 r)))
            = set (keys (tbl st)) \<union> set (tracked_keys src idf df (rs @ [r]))"
      proof (cases "get r df")
        case PNone
        then show ?thesis
          by (simp add: body keys_track_none ks tracked_keys_snoc)
      next
        case (PStr d)
        then show ?thesis
          using True by (auto simp: body set_keys_track ks tracked_keys_snoc)
      qed
      with nov show ?thesis
        unfolding novelty_loop_snoc by simp
    next
      case old: False
      have body: "loop_body clk src idf df blk lt ?st1 r = ?st1"
        using old by (simp add: loop_body_def)
      have "(src, str_of (get r idf)) \<in> set (keys (tbl ?st1))"
        using old by (simp add: is_new_iff)
      then have "set (keys (tbl ?st1))
           = set (keys (tbl st)) \<union> set (tracked_keys src idf df (rs @ [r]))"
        unfolding ks by (auto simp: tracked_keys_snoc)
      moreover have "novel ?st1 = novel st @ reported (tbl st) src idf df (rs @ [r])"
        using old new_iff by (simp add: nv reported_snoc)
      ultimately show ?thesis
        unfolding novelty_loop_snoc body by simp
    qed
  qed
qed

lemma track_source_reported:
  "fst (track_source e m src idf df rs w) = reported (database w) src idf df rs"
  "set (keys (database (snd (track_source e m src idf df rs w))))
     = set (keys (database w)) \<union> set (tracked_keys src idf df rs)"
  using loop_general [of "isoformat e" src idf df "cfg_block m" "cfg_lot m" rs
      "\<lparr>tbl = database w, ticks = clock w, novel = []\<rparr>"]
  by (simp_all add: track_source_def Let_def)

lemma reported_cong:
  assumes "\<And>i. (src, i) \<in> set (keys t) \<longleftrightarrow> (src, i) \<in> set (keys t')"
  shows "reported t src idf df rs = reported t' src idf df rs"
proof -
  have "unseen t src idf r = unseen t' src idf r" for r
    by (simp add: unseen_def assms)
  then have "reported_at t src idf df rs = reported_at t' src idf df rs"
    by (intro ext) (simp add: reported_at_def)
  then show ?thesis
    by (simp add: reported_def)
qed

lemma poll_reported:
  "fst (poll get_311_complaints src idf df e m y w)
     = reported (database w) src idf df
         (fetched (net e) (request_for (api_token m) ''erm2-nwe9'' (params_311 (cfg_block m) (cfg_lot m) y)))"
  "fst (poll get_hpd_violations src idf df e m y w)
     = reported (database w) src idf df
         (fetched (net e) (request_for (api_token m) ''wvxf-dwi5'' (params_hpd (cfg_block m) (cfg_lot m) y)))"
  "fst (poll get_oath_violations src idf df e m y w)
     = reported (database w) src idf df
         (fetched (net e) (request_for (api_token m) ''6bgk-3dad'' (params_oath (cfg_block m) (cfg_lot m) y)))"
  "fst (poll get_dob_violations src idf df e m y w)
     = reported (database w) src idf df
         (fetched (net e) (request_for (api_token m) ''3h2n-5cm9'' (params_dob (cfg_block m) (cfg_lot m) y)))"
  by (simp_all add: poll_get track_source_reported make_request_snd)

lemma poll_tracked:
  "set (keys (database (snd (poll get_311_complaints src idf df e m y w))))
     = set (keys (database w)) \<union> set (tracked_keys src idf df
         (fetched (net e) (request_for (api_token m) ''erm2-nwe9'' (params_311 (cfg_block m) (cfg_lot m) y))))"
  "set (keys (database (snd (poll get_hpd_violations src idf df e m y w))))
     = set (keys (database w)) \<union> set (tracked_keys src idf df
         (fetched (net e) (request_for (api_token m) ''wvxf-dwi5'' (params_hpd (cfg_block m) (cfg_lot m) y))))"
  "set (keys (database (snd (poll get_oath_violations src idf df e m y w))))
     = set (keys (database w)) \<union> set (tracked_keys src idf df
         (fetched (net e) (request_for (api_token m) ''6bgk-3dad'' (params_oath (cfg_block m) (cfg_lot m) y))))"
  "set (keys (database (snd (poll get_dob_violations src idf df e m y w))))
     = set (keys (database w)) \<union> set (tracked_keys src idf df
         (fetched (net e) (request_for (api_token m) ''3h2n-5cm9'' (params_dob (cfg_block m) (cfg_lot m) y))))"
  by (simp_all add: poll_get track_source_reported make_request_snd)

lemma reported_other_source:
  assumes "set (keys t') = set (keys t) \<union> K" "\<And>i. (src, i) \<notin> K"
  shows "reported t' src idf df rs = reported t src idf df rs"
  by (rule reported_cong) (simp add: assms)

lemma city_fields:
  "get complaint_A1 ''unique_key'' = PStr ''A1''" "get complaint_A1 ''created_date'' = PStr ''2024-03-01T10:00:00''"
  "get complaint_A1 ''violationid'' = PNone" "get complaint_A1 ''summons_number'' = PNone"
  "get complaint_A1 ''isn_dob_bis_viol'' = PNone"
  "get hpd_B1 ''violationid'' = PStr ''B1''" "get hpd_B1 ''inspectiondate'' = PStr ''2024-03-01T00:00:00''"
  "get hpd_B1 ''unique_key'' = PNone" "get hpd_B1 ''summons_number'' = PNone"
  "get hpd_B1 ''isn_dob_bis_viol'' = PNone"
  "get oath_C1 ''summons_number'' = PStr ''C1''" "get oath_C1 ''hearing_date'' = PStr ''2024-03-01T00:00:00''"
  "get oath_C1 ''unique_key'' = PNone" "get oath_C1 ''violationid'' = PNone"
  "get oath_C1 ''isn_dob_bis_viol'' = PNone"
  "get dob_D1 ''isn_dob_bis_viol'' = PStr ''D1''" "get dob_D1 ''issue_date'' = PStr ''2024-03-01T00:00:00''"
  "get dob_D1 ''unique_key'' = PNone" "get dob_D1 ''violationid'' = PNone"
  "get dob_D1 ''summons_number'' = PNone"
  by (simp_all add: get_def complaint_A1_def hpd_B1_def oath_C1_def dob_D1_def)

lemma sample_gather:
  assumes "net e = sample_net"
  shows "fst (gather e sample_monitor sample_world)
      = [(''311_complaints'', [complaint_A1]), (''hpd_violations'', []),
         (''oath_violations'', []), (''dob_violations'', [])]"
    and "keys (database (snd (gather e sample_monitor sample_world)))
      = [(''311_complaints'', ''A1'')]"
    and "logged (snd (gather e sample_monitor sample_world)) = [Checking ''1'' ''2'']"
    and "any_values (fst (gather e sample_monitor sample_world))"
proof -
  have f: "fetched (net e) req = [complaint_A1]" for req
    by (simp add: fetched_def assms sample_net_def)
  show g: "fst (gather e sample_monitor sample_world)
      = [(''311_complaints'', [complaint_A1]), (''hpd_violations'', []),
         (''oath_violations'', []), (''dob_violations'', [])]"
    by (simp add: gather_eq Let_def poll_get f track_source_def make_request_snd novelty_loop_def
        loop_body_def truthy_samples get_def complaint_A1_def is_new_violation_def
        select_rows_def sample_world_def empty_table_def log_line_def)
  show "keys (database (snd (gather e sample_monitor sample_world)))
      = [(''311_complaints'', ''A1'')]"
    by (simp add: gather_eq Let_def poll_get f track_source_def make_request_snd novelty_loop_def
        loop_body_def truthy_samples get_def complaint_A1_def is_new_violation_def
        select_rows_def sample_world_def empty_table_def log_line_def track_violation_def
        keys_def key_def)
  show "logged (snd (gather e sample_monitor sample_world)) = [Checking ''1'' ''2'']"
    by (simp add: gather_eq Let_def poll_get f track_source_snd make_request_def assms
        sample_net_def sample_world_def log_line_def sample_monitor_def)
  show "any_values (fst (gather e sample_monitor sample_world))"
    by (simp add: g any_values_def)
qed

section \<open>Claims about the store\<close>

text \<open>
  C2 (idempotent insert), as stated for every call: two inserts with the same pair leave
  exactly one row. It fails when the calls carry no date, as the call from
  \<open>check_violations\<close> does for a record without its date field: \<open>INSERT OR IGNORE\<close> skips
  both rows on the \<open>NOT NULL\<close> column and the table has no row for the pair.
\<close>

theorem undated_insert_counterexample:
  "distinct (keys empty_table)
   \<and> length (select_rows
        (track_violation
           (track_violation empty_table ''hpd_violations'' ''B1'' ''123'' ''45'' PNone ''t1'')
           ''hpd_violations'' ''B1'' ''123'' ''45'' PNone ''t2'')
        ''hpd_violations'' ''B1'') \<noteq> 1"
  by (simp add: empty_table_def keys_def track_violation_def select_rows_def)

text \<open>
  C2, amended. On a table that satisfies its uniqueness constraint, two calls of
  \<open>track_violation\<close> with the same source and identifier, the first with a date string,
  leave exactly one row with that pair. The second call, whatever block, lot, date and
  time it carries, returns normally and leaves the rows as the first call left them; when
  the pair was new, the one row is the row of the first call, with its block, lot,
  violation date and creation time.
\<close>

theorem track_violation_idempotent:
  assumes "distinct (keys t)"
  shows "length (select_rows
            (track_violation (track_violation t src vid blk lt (PStr d) now)
               src vid blk' lt' vdate' now') src vid) = 1
         \<and> rows (track_violation (track_violation t src vid blk lt (PStr d) now)
               src vid blk' lt' vdate' now')
           = rows (track_violation t src vid blk lt (PStr d) now)
         \<and> ((src, vid) \<notin> set (keys t) \<longrightarrow>
              select_rows
                (track_violation (track_violation t src vid blk lt (PStr d) now)
                   src vid blk' lt' vdate' now') src vid
              = [\<lparr>rowid = next_rowid t, source = src, violation_id = vid, block = blk,
                  lot = lt, violation_date = d, created_date = now\<rparr>])"
proof -
  let ?t1 = "track_violation t src vid blk lt (PStr d) now"
  let ?t2 = "track_violation ?t1 src vid blk' lt' vdate' now'"
  have mem: "(src, vid) \<in> set (keys ?t1)"
    by (simp add: set_keys_track)
  have same: "rows ?t2 = rows ?t1"
    using mem by (rule rows_track_dup)
  have d1: "distinct (keys ?t1)"
    using assms by (rule distinct_track)
  have sel: "select_rows ?t2 src vid = select_rows ?t1 src vid"
    by (simp add: select_rows_def same)
  have one: "length (select_rows ?t1 src vid) = 1"
    using d1 mem by (simp add: select_rows_length count_distinct_mem)
  show ?thesis
    using same sel one by (simp add: select_rows_track_new)
qed

theorem track_violation_idempotent_witness:
  "distinct (keys \<lparr>rows = [], seq = 0\<rparr>)
   \<and> rows (track_violation
        (track_violation \<lparr>rows = [], seq = 0\<rparr> ''hpd_violations'' ''B1'' ''123'' ''45''
           (PStr ''2024-05-01'') ''t1'')
        ''hpd_violations'' ''B1'' ''999'' ''9'' (PStr ''2024-06-01'') ''t2'')
     = [\<lparr>rowid = 1, source = ''hpd_violations'', violation_id = ''B1'', block = ''123'',
         lot = ''45'', violation_date = ''2024-05-01'', created_date = ''t1''\<rparr>]"
  using track_violation_idempotent [of "\<lparr>rows = [], seq = 0\<rparr>" "''hpd_violations''" "''B1''"
      "''123''" "''45''" "''2024-05-01''" "''t1''" "''999''" "''9''" "PStr ''2024-06-01''" "''t2''"]
  by (simp add: keys_def track_violation_def key_def next_rowid_def)

text \<open>
  C3 (uniqueness). Whatever sequence of initialisations, existence checks and inserts is
  run on a database file that starts without the table, the resulting table has no two
  rows with the same source and identifier. The insert alone guarantees it, without a
  preceding existence check: inserting a pair that is present returns normally and leaves
  the rows unchanged.
\<close>

theorem unique_pairs:
  assumes "run_ops ops = Some t"
  shows "distinct (keys t)
         \<and> ((src, vid) \<in> set (keys t) \<longrightarrow>
              rows (track_violation t src vid blk lt vdate now) = rows t
              \<and> run_ops (ops @ [Insert src vid blk lt vdate now])
                = Some (track_violation t src vid blk lt vdate now))"
proof -
  have "distinct (keys t)"
    using assms unfolding run_ops_def by (rule foldl_store_distinct[rotated]) simp
  moreover have "run_ops (ops @ [Insert src vid blk lt vdate now])
      = Some (track_violation t src vid blk lt vdate now)"
    using assms by (simp add: run_ops_def)
  ultimately show ?thesis
    by (simp add: rows_track_dup)
qed

theorem unique_pairs_witness:
  "run_ops [Init, Insert ''dob_violations'' ''D1'' ''1'' ''2'' (PStr ''d'') ''t1'', Init,
            Exists ''dob_violations'' ''D1'',
            Insert ''dob_violations'' ''D1'' ''1'' ''2'' (PStr ''e'') ''t2'']
   = Some \<lparr>rows = [\<lparr>rowid = 1, source = ''dob_violations'', violation_id = ''D1'',
                     block = ''1'', lot = ''2'', violation_date = ''d'', created_date = ''t1''\<rparr>],
           seq = 2\<rparr>
   \<and> distinct (keys \<lparr>rows = [\<lparr>rowid = 1, source = ''dob_violations'', violation_id = ''D1'',
                     block = ''1'', lot = ''2'', violation_date = ''d'', created_date = ''t1''\<rparr>],
           seq = 2\<rparr>)"
proof -
  have r: "run_ops [Init, Insert ''dob_violations'' ''D1'' ''1'' ''2'' (PStr ''d'') ''t1'', Init,
            Exists ''dob_violations'' ''D1'',
            Insert ''dob_violations'' ''D1'' ''1'' ''2'' (PStr ''e'') ''t2'']
   = Some \<lparr>rows = [\<lparr>rowid = 1, source = ''dob_violations'', violation_id = ''D1'',
                     block = ''1'', lot = ''2'', violation_date = ''d'', created_date = ''t1''\<rparr>],
           seq = 2\<rparr>"
    by (simp add: run_ops_def init_database_def track_violation_def keys_def key_def next_rowid_def)
  from unique_pairs [OF r] r show ?thesis by simp
qed

section \<open>Claims about the tracking loop\<close>

text \<open>
  C1 (novelty), as stated: the novel list is the input restricted to the records whose
  pair is not in the table the loop starts from. It fails on an input that repeats an
  identifier: both records are unseen in the starting table, and only the first is
  reported.
\<close>

theorem novelty_filter_counterexample:
  "novel (novelty_loop sample_clock ''311_complaints'' ''unique_key'' ''created_date'' ''1'' ''2''
          [complaint_A1, complaint_A1] \<lparr>tbl = empty_table, ticks = 0, novel = []\<rparr>)
   \<noteq> filter_unseen empty_table ''311_complaints'' ''unique_key'' [complaint_A1, complaint_A1]"
  by (simp add: novelty_loop_def loop_body_def truthy_samples is_new_violation_def select_rows_def
      track_violation_def empty_table_def keys_def key_def filter_unseen_def unseen_def)

text \<open>
  C1, amended. When every record that has an identifier also has its date, the novel list
  is the input restricted to the records that carry a non-empty identifier, whose pair is
  not in the starting table, and whose identifier no earlier record of the input has, in
  input order. A second run on the same input, started from the table the first run
  left, reports nothing and changes neither the table nor the clock count.
\<close>

theorem novelty_first_unseen:
  assumes "dated id_field date_field rs"
  shows "novel (novelty_loop clk src id_field date_field blk lt rs \<lparr>tbl = t, ticks = n, novel = []\<rparr>)
           = first_unseen t src id_field rs
         \<and> novelty_loop clk' src id_field date_field blk lt rs
             ((novelty_loop clk src id_field date_field blk lt rs
                 \<lparr>tbl = t, ticks = n, novel = []\<rparr>) \<lparr>novel := []\<rparr>)
           = (novelty_loop clk src id_field date_field blk lt rs
                 \<lparr>tbl = t, ticks = n, novel = []\<rparr>) \<lparr>novel := []\<rparr>"
proof -
  let ?st0 = "\<lparr>tbl = t, ticks = n, novel = []\<rparr>"
  let ?st1 = "novelty_loop clk src id_field date_field blk lt rs ?st0"
  from loop_invariant [OF assms, of clk src blk lt ?st0]
  have ks: "set (keys (tbl ?st1))
           = set (keys t) \<union> {(src, str_of (get r id_field)) | r. r \<in> set rs \<and> truthy (get r id_field)}"
    and nv: "novel ?st1 = first_unseen t src id_field rs"
    by simp_all
  have "novelty_loop clk' src id_field date_field blk lt rs (?st1\<lparr>novel := []\<rparr>) = ?st1\<lparr>novel := []\<rparr>"
    by (rule loop_all_seen) (auto simp: ks)
  with nv show ?thesis by simp
qed

theorem novelty_first_unseen_witness:
  "dated ''unique_key'' ''created_date'' [complaint_A1, complaint_no_key, complaint_A1, complaint_A2]
   \<and> novel (novelty_loop sample_clock ''311_complaints'' ''unique_key'' ''created_date'' ''1'' ''2''
          [complaint_A1, complaint_no_key, complaint_A1, complaint_A2]
          \<lparr>tbl = empty_table, ticks = 0, novel = []\<rparr>) = [complaint_A1, complaint_A2]
   \<and> novel (novelty_loop sample_clock ''311_complaints'' ''unique_key'' ''created_date'' ''1'' ''2''
          [complaint_A1, complaint_no_key, complaint_A1, complaint_A2]
          ((novelty_loop sample_clock ''311_complaints'' ''unique_key'' ''created_date'' ''1'' ''2''
              [complaint_A1, complaint_no_key, complaint_A1, complaint_A2]
              \<lparr>tbl = empty_table, ticks = 0, novel = []\<rparr>) \<lparr>novel := []\<rparr>)) = []"
proof -
  have d: "dated ''unique_key'' ''created_date'' [complaint_A1, complaint_no_key, complaint_A1, complaint_A2]"
    by (simp add: dated_def truthy_samples)
  have f: "first_unseen empty_table ''311_complaints'' ''unique_key''
      [complaint_A1, complaint_no_key, complaint_A1, complaint_A2] = [complaint_A1, complaint_A2]"
    by (simp add: first_unseen_def unseen_def first_at_def truthy_samples empty_table_def keys_def
        upt_rec [of 0] upt_rec [of 1] upt_rec [of 2] upt_rec [of 3] upt_rec [of 4]
        upt_rec[of "Suc 0"] upt_rec[of "Suc (Suc 0)"])
  from novelty_first_unseen [OF d, of sample_clock "''311_complaints''" "''1''" "''2''" empty_table 0 sample_clock]
  show ?thesis using d f by simp
qed

text \<open>
  C4 (missing identifier). A record whose identifier field is absent, null or empty
  leaves the loop state as it was: the run on an input containing it ends in the same
  table, clock count and novel list as the run on the input without it, and the record is
  not in the novel list.
\<close>

theorem missing_identifier_skipped:
  assumes "r id_field = None \<or> r id_field = Some PNone \<or> r id_field = Some (PStr [])"
  shows "novelty_loop clk src id_field date_field blk lt (xs @ r # ys) st
           = novelty_loop clk src id_field date_field blk lt (xs @ ys) st
         \<and> loop_body clk src id_field date_field blk lt st r = st
         \<and> (r \<notin> set (novel st) \<longrightarrow>
              r \<notin> set (novel (novelty_loop clk src id_field date_field blk lt (xs @ r # ys) st)))"
proof -
  have nt: "\<not> truthy (get r id_field)"
    using assms by (simp add: not_truthy_iff)
  have skip: "\<And>s. loop_body clk src id_field date_field blk lt s r = s"
    using nt by (rule loop_body_skip)
  have eq: "novelty_loop clk src id_field date_field blk lt (xs @ r # ys) st
           = novelty_loop clk src id_field date_field blk lt (xs @ ys) st"
    by (simp add: novelty_loop_append novelty_loop_Cons skip)
  have "r \<notin> set (novel (novelty_loop clk src id_field date_field blk lt (xs @ r # ys) st))"
    if "r \<notin> set (novel st)"
    using novelty_loop_novel [of clk src id_field date_field blk lt "xs @ r # ys" st] that nt
    by auto
  with eq skip show ?thesis by simp
qed

theorem missing_identifier_skipped_witness:
  "complaint_no_key ''unique_key'' = None
   \<and> novelty_loop sample_clock ''311_complaints'' ''unique_key'' ''created_date'' ''1'' ''2''
        ([complaint_A1] @ complaint_no_key # [complaint_A2]) fresh
     = novelty_loop sample_clock ''311_complaints'' ''unique_key'' ''created_date'' ''1'' ''2''
        ([complaint_A1] @ [complaint_A2]) fresh
   \<and> complaint_no_key \<notin> set (novel (novelty_loop sample_clock ''311_complaints'' ''unique_key''
        ''created_date'' ''1'' ''2'' ([complaint_A1] @ complaint_no_key # [complaint_A2]) fresh))"
proof -
  have h: "complaint_no_key ''unique_key'' = None"
    by (simp add: complaint_no_key_def)
  have n: "complaint_no_key \<notin> set (novel fresh)"
    by (simp add: fresh_def)
  from missing_identifier_skipped [of complaint_no_key "''unique_key''" sample_clock
      "''311_complaints''" "''created_date''" "''1''" "''2''" "[complaint_A1]" "[complaint_A2]" fresh]
    h n
  show ?thesis by blast
qed

text \<open>
  C10 (distinct identifiers in one run), evaluated on two records with the same
  identifier and no date: the insert of the first is skipped by the \<open>NOT NULL\<close>
  constraint on \<open>violation_date\<close>, so the second is found new as well, both are
  reported, and no row is written.
\<close>

theorem duplicate_undated_evaluation:
  "novel (novelty_loop sample_clock ''311_complaints'' ''unique_key'' ''created_date'' ''1'' ''2''
          [complaint_undated, complaint_undated] \<lparr>tbl = empty_table, ticks = 0, novel = []\<rparr>)
     = [complaint_undated, complaint_undated]
   \<and> rows (tbl (novelty_loop sample_clock ''311_complaints'' ''unique_key'' ''created_date'' ''1'' ''2''
          [complaint_undated, complaint_undated] \<lparr>tbl = empty_table, ticks = 0, novel = []\<rparr>)) = []"
  by (simp add: novelty_loop_def loop_body_def truthy_samples is_new_violation_def select_rows_def
      track_violation_def empty_table_def)

section \<open>Claims about the cycle\<close>

text \<open>
  C5 (native identifier fields). In every cycle the list reported for a source is made of
  exactly the records of that source's answer that have a non-empty value under the
  source's own identifier field, whose pair with the source tag is not in the table when
  the cycle begins, and which no earlier dated record of the answer precedes with the same
  value: \<open>unique_key\<close> for 311 complaints, \<open>violationid\<close> for HPD, \<open>summons_number\<close> for
  OATH and \<open>isn_dob_bis_viol\<close> for DOB. The pairs the cycle writes are the source tag with
  the value under that same field. The four field names are pairwise distinct.
\<close>

theorem own_identifier_fields:
  "fst (gather e m w)
     = [(''311_complaints'',
         reported (database w) ''311_complaints'' ''unique_key'' ''created_date''
           (answer e m w ''erm2-nwe9'' params_311)),
        (''hpd_violations'',
         reported (database w) ''hpd_violations'' ''violationid'' ''inspectiondate''
           (answer e m w ''wvxf-dwi5'' params_hpd)),
        (''oath_violations'',
         reported (database w) ''oath_violations'' ''summons_number'' ''hearing_date''
           (answer e m w ''6bgk-3dad'' params_oath)),
        (''dob_violations'',
         reported (database w) ''dob_violations'' ''isn_dob_bis_viol'' ''issue_date''
           (answer e m w ''3h2n-5cm9'' params_dob))]
   \<and> set (keys (database (snd (gather e m w))))
     = set (keys (database w))
       \<union> set (tracked_keys ''311_complaints'' ''unique_key'' ''created_date''
                (answer e m w ''erm2-nwe9'' params_311))
       \<union> set (tracked_keys ''hpd_violations'' ''violationid'' ''inspectiondate''
                (answer e m w ''wvxf-dwi5'' params_hpd))
       \<union> set (tracked_keys ''oath_violations'' ''summons_number'' ''hearing_date''
                (answer e m w ''6bgk-3dad'' params_oath))
       \<union> set (tracked_keys ''dob_violations'' ''isn_dob_bis_viol'' ''issue_date''
                (answer e m w ''3h2n-5cm9'' params_dob))
   \<and> distinct [''unique_key'', ''violationid'', ''summons_number'', ''isn_dob_bis_viol'']"
proof -
  let ?w2 = "(log_line (Checking (cfg_block m) (cfg_lot m)) w)
                 \<lparr>clock := Suc (clock (log_line (Checking (cfg_block m) (cfg_lot m)) w))\<rparr>"
  let ?y = "yesterday_of e (clock w)"
  let ?p1 = "poll get_311_complaints ''311_complaints'' ''unique_key'' ''created_date'' e m ?y ?w2"
  let ?p2 = "poll get_hpd_violations ''hpd_violations'' ''violationid'' ''inspectiondate'' e m ?y (snd ?p1)"
  let ?p3 = "poll get_oath_violations ''oath_violations'' ''summons_number'' ''hearing_date'' e m ?y (snd ?p2)"
  let ?p4 = "poll get_dob_violations ''dob_violations'' ''isn_dob_bis_viol'' ''issue_date'' e m ?y (snd ?p3)"
  let ?T1 = "set (tracked_keys ''311_complaints'' ''unique_key'' ''created_date''
                (answer e m w ''erm2-nwe9'' params_311))"
  let ?T2 = "set (tracked_keys ''hpd_violations'' ''violationid'' ''inspectiondate''
                (answer e m w ''wvxf-dwi5'' params_hpd))"
  let ?T3 = "set (tracked_keys ''oath_violations'' ''summons_number'' ''hearing_date''
                (answer e m w ''6bgk-3dad'' params_oath))"
  let ?T4 = "set (tracked_keys ''dob_violations'' ''isn_dob_bis_viol'' ''issue_date''
                (answer e m w ''3h2n-5cm9'' params_dob))"
  have d0: "database ?w2 = database w"
    by (simp add: log_line_def)
  have k1: "set (keys (database (snd ?p1))) = set (keys (database w)) \<union> ?T1"
    by (simp add: poll_tracked d0 answer_def)
  have k2: "set (keys (database (snd ?p2))) = set (keys (database w)) \<union> (?T1 \<union> ?T2)"
    by (simp add: poll_tracked(2) k1 answer_def Un_assoc)
  have k3: "set (keys (database (snd ?p3))) = set (keys (database w)) \<union> (?T1 \<union> ?T2 \<union> ?T3)"
    by (simp add: poll_tracked(3) k2 answer_def Un_assoc)
  have k4: "set (keys (database (snd ?p4)))
      = set (keys (database w)) \<union> ?T1 \<union> ?T2 \<union> ?T3 \<union> ?T4"
    by (simp add: poll_tracked(4) k3 answer_def Un_assoc)
  have f1: "fst ?p1 = reported (database w) ''311_complaints'' ''unique_key'' ''created_date''
           (answer e m w ''erm2-nwe9'' params_311)"
    by (simp add: poll_reported d0 answer_def)
  have f2: "fst ?p2 = reported (database w) ''hpd_violations'' ''violationid'' ''inspectiondate''
           (answer e m w ''wvxf-dwi5'' params_hpd)"
    unfolding poll_reported answer_def [symmetric]
    by (rule reported_other_source [OF k1]) (auto dest: tracked_keys_src)
  have f3: "fst ?p3 = reported (database w) ''oath_violations'' ''summons_number'' ''hearing_date''
           (answer e m w ''6bgk-3dad'' params_oath)"
    unfolding poll_reported answer_def [symmetric]
    by (rule reported_other_source [OF k2]) (auto dest: tracked_keys_src)
  have f4: "fst ?p4 = reported (database w) ''dob_violations'' ''isn_dob_bis_viol'' ''issue_date''
           (answer e m w ''3h2n-5cm9'' params_dob)"
    unfolding poll_reported answer_def [symmetric]
    by (rule reported_other_source [OF k3]) (auto dest: tracked_keys_src)
  have g: "gather e m w = ([(''311_complaints'', fst ?p1), (''hpd_violations'', fst ?p2),
           (''oath_violations'', fst ?p3), (''dob_violations'', fst ?p4)], snd ?p4)"
    by (simp add: gather_eq Let_def)
  show ?thesis
    unfolding g fst_conv snd_conv f1 f2 f3 f4 k4 by simp
qed

theorem own_identifier_fields_witness:
  "fst (gather (sample_env city_net) sample_monitor sample_world)
     = [(''311_complaints'', [complaint_A1]), (''hpd_violations'', [hpd_B1]),
        (''oath_violations'', [oath_C1]), (''dob_violations'', [dob_D1])]
   \<and> set (keys (database (snd (gather (sample_env city_net) sample_monitor sample_world))))
     = {(''311_complaints'', ''A1''), (''hpd_violations'', ''B1''),
        (''oath_violations'', ''C1''), (''dob_violations'', ''D1'')}"
proof -
  have a: "answer (sample_env city_net) sample_monitor sample_world ep ps
      = [complaint_A1, hpd_B1, oath_C1, dob_D1]" for ep ps
    by (simp add: answer_def fetched_def sample_env_def city_net_def)
  have e: "keys (database sample_world) = []"
    by (simp add: sample_world_def empty_table_def keys_def)
  have r: "reported (database sample_world) ''311_complaints'' ''unique_key'' ''created_date''
        [complaint_A1, hpd_B1, oath_C1, dob_D1] = [complaint_A1]"
      "reported (database sample_world) ''hpd_violations'' ''violationid'' ''inspectiondate''
        [complaint_A1, hpd_B1, oath_C1, dob_D1] = [hpd_B1]"
      "reported (database sample_world) ''oath_violations'' ''summons_number'' ''hearing_date''
        [complaint_A1, hpd_B1, oath_C1, dob_D1] = [oath_C1]"
      "reported (database sample_world) ''dob_violations'' ''isn_dob_bis_viol'' ''issue_date''
        [complaint_A1, hpd_B1, oath_C1, dob_D1] = [dob_D1]"
    by (simp_all add: reported_def reported_at_def unseen_def e city_fields)
  have t: "tracked_keys ''311_complaints'' ''unique_key'' ''created_date''
        [complaint_A1, hpd_B1, oath_C1, dob_D1] = [(''311_complaints'', ''A1'')]"
      "tracked_keys ''hpd_violations'' ''violationid'' ''inspectiondate''
        [complaint_A1, hpd_B1, oath_C1, dob_D1] = [(''hpd_violations'', ''B1'')]"
      "tracked_keys ''oath_violations'' ''summons_number'' ''hearing_date''
        [complaint_A1, hpd_B1, oath_C1, dob_D1] = [(''oath_violations'', ''C1'')]"
      "tracked_keys ''dob_violations'' ''isn_dob_bis_viol'' ''issue_date''
        [complaint_A1, hpd_B1, oath_C1, dob_D1] = [(''dob_violations'', ''D1'')]"
    by (simp_all add: tracked_keys_def city_fields)
  from own_identifier_fields [of "sample_env city_net" sample_monitor sample_world]
  show ?thesis
    by (simp add: a r t e insert_commute)
qed




text \<open>
  C7 (fetch failure is isolated). When the data service answers a request with a
  \<open>RequestException\<close>, \<open>_make_request\<close> returns the empty list and logs the error. The
  cycle then yields the same four novel lists and the same world, log apart, as the cycle
  in which that request is answered with an empty list. Whatever the answers, the cycle
  sends exactly four requests, one per source, in the order of the code.
\<close>

theorem fetch_failure_isolated:
  assumes "net e req = RequestException"
  shows "fst (check_violations (e\<lparr>net := (net e)(req := Json [])\<rparr>) m w)
           = fst (check_violations e m w)
         \<and> unlogged (snd (check_violations (e\<lparr>net := (net e)(req := Json [])\<rparr>) m w))
           = unlogged (snd (check_violations e m w))
         \<and> (request_for tok ep ps = req \<longrightarrow>
              make_request (net e) tok ep ps w0
              = ([], log_line (ErrorFetching ep) (w0\<lparr>requests := requests w0 @ [req]\<rparr>)))
         \<and> requests (snd (check_violations e m w))
           = requests w @
             [request_for (api_token m) ''erm2-nwe9''
                (params_311 (cfg_block m) (cfg_lot m) (yesterday_of e (clock w))),
              request_for (api_token m) ''wvxf-dwi5''
                (params_hpd (cfg_block m) (cfg_lot m) (yesterday_of e (clock w))),
              request_for (api_token m) ''6bgk-3dad''
                (params_oath (cfg_block m) (cfg_lot m) (yesterday_of e (clock w))),
              request_for (api_token m) ''3h2n-5cm9''
                (params_dob (cfg_block m) (cfg_lot m) (yesterday_of e (clock w)))]"
proof -
  let ?e' = "e\<lparr>net := (net e)(req := Json [])\<rparr>"
  have fe: "fetched ((net e)(req := Json [])) = fetched (net e)"
    using assms by (rule fetched_patch)
  have gf: "fst (gather ?e' m w) = fst (gather e m w)"
    by (rule gather_unlogged(1)) (simp_all add: fe)
  have gu: "unlogged (snd (gather ?e' m w)) = unlogged (snd (gather e m w))"
    by (rule gather_unlogged(2)) (simp_all add: fe)
  have 1: "fst (check_violations ?e' m w) = fst (check_violations e m w)"
    by (simp add: check_violations_eq gf)
  have 2: "unlogged (snd (check_violations ?e' m w)) = unlogged (snd (check_violations e m w))"
    unfolding check_violations_eq snd_conv gf
    by (rule send_unlogged) (simp_all add: gu)
  have 3: "make_request (net e) tok ep ps w0
              = ([], log_line (ErrorFetching ep) (w0\<lparr>requests := requests w0 @ [req]\<rparr>))"
    if "request_for tok ep ps = req"
    using that assms by (simp add: make_request_def Let_def)
  have 4: "requests (snd (check_violations e m w)) = requests (snd (gather e m w))"
    by (simp add: check_violations_eq send_database log_line_def)
  from 1 2 3 show ?thesis
    unfolding 4 gather_requests by simp
qed

theorem fetch_failure_isolated_witness:
  "net (sample_env failing_net) sample_request = RequestException
   \<and> fst (check_violations
            ((sample_env failing_net)\<lparr>net := (net (sample_env failing_net))(sample_request := Json [])\<rparr>)
            sample_monitor sample_world)
     = fst (check_violations (sample_env failing_net) sample_monitor sample_world)
   \<and> length (requests (snd (check_violations (sample_env failing_net) sample_monitor sample_world))) = 4"
proof -
  have h: "net (sample_env failing_net) sample_request = RequestException"
    by (simp add: sample_env_def failing_net_def)
  from fetch_failure_isolated [OF h, of sample_monitor sample_world] h
  show ?thesis by (simp add: sample_world_def)
qed




text \<open>
  C9 (nothing new, nothing sent). When the four novel lists of a cycle are empty,
  \<open>send_violation_report\<close> only logs that there is nothing to report: the cycle ends in
  the world its loops left plus the two log lines, no call to the mail server is made,
  and neither the mail server nor the rendering of the body has any influence on the
  outcome.
\<close>

theorem no_report_when_nothing_new:
  assumes "list_all (\<lambda>kv. snd kv = []) (fst (gather e m w))"
  shows "snd (check_violations e m w)
           = log_line NoNewViolations (log_line (Found 0) (snd (gather e m w)))
         \<and> smtp_session (snd (check_violations e m w)) = smtp_session w
         \<and> check_violations (e\<lparr>smtp := s, create_email_body := b\<rparr>) m w = check_violations e m w
         \<and> send_violation_report e m (fst (gather e m w)) blk lt w' = log_line NoNewViolations w'"
proof -
  from assms have na: "\<not> any_values (fst (gather e m w))"
    by (rule all_empty_not_any)
  from assms have z: "sum_list (map (\<lambda>kv. length (snd kv)) (fst (gather e m w))) = 0"
    by (rule all_empty_total)
  have 1: "snd (check_violations e m w)
           = log_line NoNewViolations (log_line (Found 0) (snd (gather e m w)))"
    by (simp add: check_violations_eq z send_nothing [OF na])
  have 2: "smtp_session (snd (check_violations e m w)) = smtp_session w"
    by (simp add: 1 log_line_def gather_smtp_session)
  have 3: "check_violations (e\<lparr>smtp := s, create_email_body := b\<rparr>) m w = check_violations e m w"
    by (simp add: check_violations_eq gather_ignores_mail z send_nothing [OF na])
  from 1 2 3 send_nothing [OF na] show ?thesis by simp
qed

theorem no_report_when_nothing_new_witness:
  "list_all (\<lambda>kv. snd kv = []) (fst (gather (sample_env failing_net) sample_monitor sample_world))
   \<and> smtp_session (snd (check_violations (sample_env failing_net) sample_monitor sample_world)) = []
   \<and> last (logged (snd (check_violations (sample_env failing_net) sample_monitor sample_world)))
     = NoNewViolations"
proof -
  have f: "fetched (net (sample_env failing_net)) req = []" for req
    by (simp add: fetched_def sample_env_def failing_net_def)
  have h: "list_all (\<lambda>kv. snd kv = [])
      (fst (gather (sample_env failing_net) sample_monitor sample_world))"
    by (simp add: gather_eq Let_def poll_get f track_source_def)
  note t = no_report_when_nothing_new [OF h, where s = refusing_smtp and b = sample_body
      and blk = "[]" and lt = "[]" and w' = sample_world]
  from t have 1: "snd (check_violations (sample_env failing_net) sample_monitor sample_world)
      = log_line NoNewViolations (log_line (Found 0)
          (snd (gather (sample_env failing_net) sample_monitor sample_world)))"
    by (rule conjunct1)
  from t have 2: "smtp_session (snd (check_violations (sample_env failing_net) sample_monitor
      sample_world)) = smtp_session sample_world"
    by (rule conjunct2 [THEN conjunct1])
  have 3: "smtp_session sample_world = []"
    by (simp add: sample_world_def)
  have 4: "last (logged (log_line NoNewViolations w)) = NoNewViolations" for w
    by (simp add: log_line_def)
  from h 2 3 4 show ?thesis
    unfolding 1 by simp
qed

end
